theory Spec2Isabelle
  imports Main "HOL-Library.Word"
begin

unbundle bit_operations_syntax

section \<open>The Mario driver of pyLegoMario (src/pyLegoMario/mario.py)\<close>

text \<open>
  The class \<^verbatim>\<open>Mario\<close> is embedded as a record that is passed through every method
  and returned updated. A method returns a pair: the value it returns or the exception
  it raises (\<open>Inl\<close>), and the object as it stands at that moment, so that whatever a
  method did before it raised is still visible.
\<close>

subsection \<open>Values, exceptions and the outside of the driver\<close>

type_synonym byte = "8 word"

text \<open>
  The exceptions of the driver. \<open>IndexError\<close> is what indexing a \<^verbatim>\<open>bytearray\<close> past
  its end raises, \<open>AssertionError\<close> what a failed \<^verbatim>\<open>assert\<close> raises; \<open>OSError\<close> and
  \<open>BleakError\<close> are the two exceptions the driver catches around transport calls,
  \<open>OtherError\<close> is any other exception of the transport, \<open>HookError\<close> any exception a
  hook raises.
\<close>

datatype error = IndexError | AssertionError | OSError | BleakError | OtherError | HookError

text \<open>What a hook is called with, after the sender: one constructor per category.\<close>

datatype payload =
    LogArgs string
  | TileArgs string
  | AccelerometerArgs int int int
  | PantsArgs string

text \<open>The fields that keep the most recent event, as a hook sees them through its sender.\<close>

record cache =
  c_pants :: "string option"
  c_ground :: "string option"
  c_acceleration :: "(int \<times> int \<times> int) option"
  c_recentTile :: "string option"

datatype 'h call = Call (hook: 'h) (args: payload) (saw: cache)

text \<open>
  The argument of a registration method is any Python object. The methods test
  \<^verbatim>\<open>callable(funcs)\<close> first and \<^verbatim>\<open>hasattr(funcs, '__iter__')\<close> second, so an object is
  a callable, or else an iterable (of objects, to any finite depth), or else neither
  (\<^verbatim>\<open>None\<close>, a number). An iterable is an object of its own: handing a method one of
  the object's own hook lists, which the method would change while iterating it, is not
  covered. Hooks are compared as Python compares them (\<^verbatim>\<open>in\<close>, \<^verbatim>\<open>list.remove\<close>):
  \<open>'h\<close> is the type of hooks up to that equality.
\<close>

datatype 'h pyarg = Callable 'h | Iterable "'h pyarg list" | Other

text \<open>A discovered device, the transport calls the driver makes, and the tasks it creates.\<close>

record device =
  dev_name :: "string option"
  dev_address :: string

datatype transport_call =
    Discover
  | ClientConnect string
  | StartNotify string
  | WriteGattChar string "byte list"
  | ClientDisconnect
  | IsConnected

datatype task = ConnectTask | DisconnectTask | CheckConnectionLoopTask | WriteTask string "byte list"

text \<open>
  The module \<^verbatim>\<open>LEGO_MARIO_DATA\<close>, imported with \<^verbatim>\<open>import *\<close>, is not among the
  sources: its tables and commands are parameters of the embedding. A dictionary read
  with \<^verbatim>\<open>.get\<close> is a map; \<^verbatim>\<open>BINARY_GESTURES\<close>, which is iterated, is the list of its
  items in insertion order.
\<close>

record mario_data =
  HEX_TO_RGB_TILE :: "byte \<rightharpoonup> string"
  HEX_TO_COLOR_TILE :: "byte \<rightharpoonup> string"
  HEX_TO_PANTS :: "byte \<rightharpoonup> string"
  HEX_TO_HUB_ACTIONS :: "byte \<rightharpoonup> string"
  HEX_TO_HUB_PROPERTIES :: "byte \<rightharpoonup> string"
  BINARY_GESTURES :: "(int \<times> string) list"
  LEGO_CHARACTERISTIC_UUID :: string
  SUBSCRIBE_IMU_COMMAND :: "byte list"
  SUBSCRIBE_RGB_COMMAND :: "byte list"
  SUBSCRIBE_PANTS_COMMAND :: "byte list"
  REQUEST_RGB_COMMAND :: "byte list"
  MUTE_COMMAND :: "byte list"
  DISCONNECT_COMMAND :: "byte list"

text \<open>
  What the driver does not decide: the answers of the transport and the behaviour of the
  hooks. The transport calls of a run are numbered from 0 in the order the driver makes
  them; call number \<open>k\<close> raises \<open>raised k\<close> if that is not \<open>None\<close>, a scan that is call
  \<open>k\<close> finds \<open>discovered k\<close>, and \<^verbatim>\<open>is_connected\<close> read as call \<open>k\<close> is \<open>connected k\<close>.
  A hook either returns or raises (\<open>hook_raises\<close>); here a hook is taken not to change
  the object it is handed, and what it raises is known only as \<open>HookError\<close>. The part
  on hooks that change the object, further down, drops both for the dispatch.
\<close>

record 'h outside =
  discovered :: "nat \<Rightarrow> device list"
  raised :: "nat \<Rightarrow> error option"
  connected :: "nat \<Rightarrow> bool"
  hook_raises :: "'h \<Rightarrow> bool"

text \<open>
  The object: the attributes \<^verbatim>\<open>__init__\<close> sets (a leading underscore is dropped), and
  after them what the object has done to its outside: the current contents of the
  module's \<^verbatim>\<open>REQUEST_RGB_COMMAND\<close> (which \<^verbatim>\<open>request_port_value\<close> writes into), the
  tasks created on the event loop and not yet run, the transport calls made, the lines
  printed, and the hook calls made. \<^verbatim>\<open>ALLHOOKS\<close> is a tuple of the four hook lists
  themselves (the lists are only ever changed in place), so it has no field of its own.
  A client is known by its address.
\<close>

record 'h mario =
  doLog :: bool
  run :: bool
  autoReconnect :: bool
  client :: "string option"
  defaultVolume :: "int option"
  pants :: "string option"
  ground :: "string option"
  acceleration :: "(int \<times> int \<times> int) option"
  recentTile :: "string option"
  accelerometerEventHooks :: "'h list"
  tileEventHooks :: "'h list"
  pantsEventHooks :: "'h list"
  logEventHooks :: "'h list"
  request_rgb_command :: "byte list"
  tasks :: "task list"
  wire :: "transport_call list"
  stdout :: "string list"
  calls :: "'h call list"

definition cache_of :: "'h mario \<Rightarrow> cache" where
  "cache_of st = \<lparr>c_pants = pants st, c_ground = ground st,
     c_acceleration = acceleration st, c_recentTile = recentTile st\<rparr>"

subsection \<open>Sequencing and exceptions\<close>

text \<open>One statement after another: the second runs only if the first did not raise.\<close>

definition then_do ::
  "('s \<Rightarrow> (error + unit) \<times> 's) \<Rightarrow> ('s \<Rightarrow> (error + 'a) \<times> 's) \<Rightarrow> 's \<Rightarrow> (error + 'a) \<times> 's" where
  "then_do f g st = (case f st of (Inl e, st') \<Rightarrow> (Inl e, st') | (Inr _, st') \<Rightarrow> g st')"

text \<open>\<^verbatim>\<open>try: body except (E1, E2): handler\<close>: the handler runs from where the body raised.\<close>

definition try_except ::
  "('s \<Rightarrow> (error + 'a) \<times> 's) \<Rightarrow> error set \<Rightarrow> ('s \<Rightarrow> (error + 'a) \<times> 's) \<Rightarrow> 's \<Rightarrow> (error + 'a) \<times> 's" where
  "try_except body caught handler st =
     (case body st of
        (Inl e, st') \<Rightarrow> if e \<in> caught then handler st' else (Inl e, st')
      | (Inr x, st') \<Rightarrow> (Inr x, st'))"

text \<open>\<^verbatim>\<open>data[i]\<close> on a bytearray, with what follows as a continuation.\<close>

definition item :: "byte list \<Rightarrow> nat \<Rightarrow> (byte \<Rightarrow> 's \<Rightarrow> (error + 'a) \<times> 's) \<Rightarrow> 's \<Rightarrow> (error + 'a) \<times> 's" where
  "item data i k st = (if i < length data then k (data ! i) st else (Inl IndexError, st))"

subsection \<open>String formatting\<close>

definition hex_digit :: "nat \<Rightarrow> char" where
  "hex_digit n = ''0123456789abcdef'' ! (n mod 16)"

text \<open>The digits of a number in a base from 2 to 16, most significant first.\<close>

function digits :: "nat \<Rightarrow> nat \<Rightarrow> string" where
  "digits b n = (if b < 2 \<or> n < b then [hex_digit n] else digits b (n div b) @ [hex_digit (n mod b)])"
  by pat_completeness auto
termination
  by (relation "measure snd") auto

declare digits.simps [simp del]

text \<open>\<^verbatim>\<open>hex(n)\<close>, \<^verbatim>\<open>bin(n)\<close> and \<^verbatim>\<open>str(n)\<close> of a byte, and \<^verbatim>\<open>"%i" % i\<close> of an integer.\<close>

definition py_hex :: "nat \<Rightarrow> string" where
  "py_hex n = ''0x'' @ digits 16 n"

definition py_bin :: "nat \<Rightarrow> string" where
  "py_bin n = ''0b'' @ digits 2 n"

definition py_str :: "nat \<Rightarrow> string" where
  "py_str n = digits 10 n"

definition fmt_i :: "int \<Rightarrow> string" where
  "fmt_i i = (if i < 0 then ''-'' @ digits 10 (nat (- i)) else digits 10 (nat i))"

text \<open>\<^verbatim>\<open>bytearray.hex()\<close>: two digits for every byte.\<close>

definition bytes_hex :: "byte list \<Rightarrow> string" where
  "bytes_hex data = concat (map (\<lambda>b. [hex_digit (unat b div 16), hex_digit (unat b mod 16)]) data)"

definition ljust :: "nat \<Rightarrow> string \<Rightarrow> string" where
  "ljust w s = s @ replicate (w - length s) CHR '' ''"

text \<open>\<^verbatim>\<open>int.from_bytes(bs, "big")\<close>.\<close>

definition from_bytes_big :: "byte list \<Rightarrow> int" where
  "from_bytes_big bs = foldl (\<lambda>acc b. acc * 256 + uint b) 0 bs"

subsection \<open>The signed byte\<close>

definition signed_py :: "int \<Rightarrow> int" where
  "signed_py ch = (if ch > 127 then ch - 256 else ch)"

subsection \<open>Hooks: calling, logging, registering, removing\<close>

text \<open>
  One call \<^verbatim>\<open>func(self, ...)\<close>: the call is recorded with what the hook can read of
  the object at that moment, and raises if the hook does.
\<close>

definition invoke :: "'h outside \<Rightarrow> 'h \<Rightarrow> payload \<Rightarrow> 'h mario \<Rightarrow> (error + unit) \<times> 'h mario" where
  "invoke E func p st =
     (if hook_raises E func then Inl HookError else Inr (),
      st\<lparr>calls := calls st @ [Call func p (cache_of st)]\<rparr>)"

text \<open>\<^verbatim>\<open>for func in hooks: func(self, ...)\<close>.\<close>

fun call_each :: "'h outside \<Rightarrow> 'h list \<Rightarrow> payload \<Rightarrow> 'h mario \<Rightarrow> (error + unit) \<times> 'h mario" where
  "call_each E [] p st = (Inr (), st)"
| "call_each E (func # funcs) p st = then_do (invoke E func p) (call_each E funcs p) st"

definition address_of :: "'h mario \<Rightarrow> string" where
  "address_of st = (case client st of None \<Rightarrow> ''Not Connected'' | Some c \<Rightarrow> c)"

definition log :: "'h outside \<Rightarrow> string \<Rightarrow> string \<Rightarrow> 'h mario \<Rightarrow> (error + unit) \<times> 'h mario" where
  "log E msg ending st =
     then_do (call_each E (logEventHooks st) (LogArgs msg))
       (\<lambda>st'. (Inr (),
          if doLog st'
          then st'\<lparr>stdout := stdout st' @ [ljust 100 (CHR 0x0D # address_of st' @ '': '' @ msg) @ ending]\<rparr>
          else st')) st"

fun AddLogHook :: "'h pyarg \<Rightarrow> 'h mario \<Rightarrow> 'h mario" where
  "AddLogHook (Callable f) st = st\<lparr>logEventHooks := logEventHooks st @ [f]\<rparr>"
| "AddLogHook (Iterable fs) st = fold AddLogHook fs st"
| "AddLogHook Other st = st"

fun AddTileHook :: "'h pyarg \<Rightarrow> 'h mario \<Rightarrow> 'h mario" where
  "AddTileHook (Callable f) st = st\<lparr>tileEventHooks := tileEventHooks st @ [f]\<rparr>"
| "AddTileHook (Iterable fs) st = fold AddTileHook fs st"
| "AddTileHook Other st = st"

fun AddAccelerometerHook :: "'h pyarg \<Rightarrow> 'h mario \<Rightarrow> 'h mario" where
  "AddAccelerometerHook (Callable f) st = st\<lparr>accelerometerEventHooks := accelerometerEventHooks st @ [f]\<rparr>"
| "AddAccelerometerHook (Iterable fs) st = fold AddAccelerometerHook fs st"
| "AddAccelerometerHook Other st = st"

fun AddPantsHook :: "'h pyarg \<Rightarrow> 'h mario \<Rightarrow> 'h mario" where
  "AddPantsHook (Callable f) st = st\<lparr>pantsEventHooks := pantsEventHooks st @ [f]\<rparr>"
| "AddPantsHook (Iterable fs) st = fold AddPantsHook fs st"
| "AddPantsHook Other st = st"



definition callTileHooks :: "'h outside \<Rightarrow> string \<Rightarrow> 'h mario \<Rightarrow> (error + unit) \<times> 'h mario" where
  "callTileHooks E tile st =
     (let st1 = st\<lparr>ground := Some tile\<rparr>
      in call_each E (tileEventHooks st1) (TileArgs tile) st1)"

definition callAccelerometerHooks ::
  "'h outside \<Rightarrow> int \<Rightarrow> int \<Rightarrow> int \<Rightarrow> 'h mario \<Rightarrow> (error + unit) \<times> 'h mario" where
  "callAccelerometerHooks E x y z st =
     (let st1 = st\<lparr>acceleration := Some (x, y, z)\<rparr>
      in call_each E (accelerometerEventHooks st1) (AccelerometerArgs x y z) st1)"

definition callPantsHooks :: "'h outside \<Rightarrow> string \<Rightarrow> 'h mario \<Rightarrow> (error + unit) \<times> 'h mario" where
  "callPantsHooks E powerup st =
     (let st1 = st\<lparr>pants := Some powerup\<rparr>
      in call_each E (pantsEventHooks st1) (PantsArgs powerup) st1)"

subsection \<open>Decoding a notification: \<^verbatim>\<open>_handle_events\<close>\<close>

text \<open>\<^verbatim>\<open>d.get(key, default)\<close>.\<close>

definition dict_get :: "('k \<rightharpoonup> string) \<Rightarrow> 'k \<Rightarrow> string \<Rightarrow> string" where
  "dict_get d k dflt = (case d k of Some v \<Rightarrow> v | None \<Rightarrow> dflt)"

text \<open>The gesture loop: the names of all gesture bits set in \<open>integer_data\<close>, concatenated.\<close>

definition gesture_names :: "(int \<times> string) list \<Rightarrow> int \<Rightarrow> string" where
  "gesture_names gestures integer_data =
     foldl (\<lambda>gesture (bin_gest, nm). if integer_data AND bin_gest \<noteq> 0 then gesture @ nm else gesture)
       [] gestures"

definition newline :: string where
  "newline = [CHR 0x0A]"

text \<open>
  The argument \<^verbatim>\<open>sender\<close> is not used by the method and is left out. Every read
  \<^verbatim>\<open>data[i]\<close> is an \<open>item\<close>, in the order Python evaluates them; the slices
  \<^verbatim>\<open>data[4:6]\<close>, \<^verbatim>\<open>data[6:]\<close>, \<^verbatim>\<open>data[4:]\<close> and \<^verbatim>\<open>data[5:]\<close> never raise.
\<close>

definition handle_events ::
  "mario_data \<Rightarrow> 'h outside \<Rightarrow> byte list \<Rightarrow> 'h mario \<Rightarrow> (error + unit) \<times> 'h mario" where
  "handle_events D E data =
    (let hex_data = bytes_hex data in
     item data 2 (\<lambda>d2.
       if d2 = 0x45 then
         item data 3 (\<lambda>d3.
           if d3 = 0x01 then
             item data 5 (\<lambda>d5. item data 6 (\<lambda>d6.
               if d5 = d6 \<and> d6 = 0xff then
                 log E (''IDLE?, Hex: '' @ hex_data) newline
               else if d5 = 0x00 then
                 item data 4 (\<lambda>d4.
                   let tile = dict_get (HEX_TO_RGB_TILE D) d4
                                (''Unkown Tile Code: '' @ py_hex (unat d4))
                   in (\<lambda>s. then_do (log E (tile @ '' Tile, Hex: '' @ hex_data) newline)
                              (callTileHooks E tile) (s\<lparr>recentTile := Some tile\<rparr>)))
               else if d5 = 0xff then
                 (let color = dict_get (HEX_TO_COLOR_TILE D) d6
                                (''Unkown Color: '' @ py_hex (unat d6))
                  in then_do (log E (color @ '' Ground, Hex: '' @ hex_data) newline)
                       (callTileHooks E color))
               else (\<lambda>s. (Inr (), s))))
           else if d3 = 0x00 then
             (if take 2 (drop 4 data) = drop 6 data then
                log E (gesture_names (BINARY_GESTURES D) (from_bytes_big (take 2 (drop 4 data))))
                  newline
              else
                item data 4 (\<lambda>d4. item data 5 (\<lambda>d5. item data 6 (\<lambda>d6.
                  let x = signed_py (uint d4); y = signed_py (uint d5); z = signed_py (uint d6)
                  in then_do (log E (''X: '' @ fmt_i x @ '' Y: '' @ fmt_i y @ '' Z: '' @ fmt_i z) [])
                       (callAccelerometerHooks E x y z)))))
           else if d3 = 0x02 then
             item data 4 (\<lambda>d4.
               let pants = dict_get (HEX_TO_PANTS D) d4 ''Unkown'';
                   binary_pants = py_bin (unat d4)
               in then_do (log E (pants @ '' Pants, Pants-Only Binary: '' @ binary_pants
                                    @ '',Hex: '' @ hex_data) newline)
                    (callPantsHooks E pants))
           else if d3 = 0x03 then
             item data 4 (\<lambda>d4.
               if d4 = 0x13 then
                 item data 5 (\<lambda>d5.
                   if d5 = 0x01 then
                     item data 6 (\<lambda>d6.
                       let tile = dict_get (HEX_TO_RGB_TILE D) d6 ''Unkown Tile''
                       in log E (''Port 3: Jumped on '' @ tile @ '', Hex: '' @ hex_data) newline)
                   else
                     log E (''Unknown value from port 3: '' @ bytes_hex (drop 4 data)
                            @ '', Hex: '' @ hex_data) newline)
               else
                 log E (''Unknown value from port 3: '' @ bytes_hex (drop 4 data)
                        @ '', Hex: '' @ hex_data) newline)
           else
             log E (''Unknown value from port '' @ py_str (unat d3) @ '': ''
                    @ bytes_hex (drop 4 data) @ '', Hex: '' @ hex_data) newline)
       else if d2 = 0x02 then
         item data 3 (\<lambda>d3.
           let action = dict_get (HEX_TO_HUB_ACTIONS D) d3 (''Unkown Hub Action, Hex: '' @ hex_data)
           in then_do (log E (action @ '', Hex: '' @ hex_data) newline)
                (\<lambda>s. (Inr (), if d3 = 0x31 then s\<lparr>tasks := tasks s @ [DisconnectTask]\<rparr> else s)))
       else if d2 = 0x04 then
         item data 4 (\<lambda>d4. item data 3 (\<lambda>d3.
           if d4 \<noteq> 0 then
             log E (''Port '' @ py_str (unat d3) @ '' got attached, Hex: '' @ hex_data) newline
           else
             log E (''Port '' @ py_str (unat d3)
                    @ '' got detached, this shouldn't happen. Hex: '' @ hex_data) newline))
       else if d2 = 0x47 then
         item data 3 (\<lambda>d3. item data 4 (\<lambda>d4. item data 9 (\<lambda>d9.
           log E (''Port '' @ py_str (unat d3) @ '' changed to mode '' @ py_str (unat d4)
                  @ '' with'' @ (if d9 = 0 then ''out'' else [])
                  @ '' notifications, Hex: '' @ hex_data) newline)))
       else if d2 = 0x01 then
         item data 4 (\<lambda>d4.
           if d4 = 0x06 then
             item data 3 (\<lambda>d3.
               let property = dict_get (HEX_TO_HUB_PROPERTIES D) d3 ''Unknown Property''
               in log E (''Hub Update About '' @ property @ '': '' @ bytes_hex (drop 5 data)
                         @ '', Hex: '' @ hex_data) newline)
           else
             log E (''Unknown message - check Lego Wireless Protocol, Hex: '' @ hex_data) newline)
       else
         log E (''Unknown message - check Lego Wireless Protocol, Hex: '' @ hex_data) newline))"

subsection \<open>The transport\<close>

text \<open>A transport call that returns nothing: recorded, and raising what the outside says.\<close>

definition transport :: "'h outside \<Rightarrow> transport_call \<Rightarrow> 'h mario \<Rightarrow> (error + unit) \<times> 'h mario" where
  "transport E c st =
     (case raised E (length (wire st)) of None \<Rightarrow> Inr () | Some e \<Rightarrow> Inl e,
      st\<lparr>wire := wire st @ [c]\<rparr>)"

text \<open>\<^verbatim>\<open>await BleakScanner.discover()\<close>.\<close>

definition discover :: "'h outside \<Rightarrow> 'h mario \<Rightarrow> (error + device list) \<times> 'h mario" where
  "discover E st =
     (case raised E (length (wire st)) of
        None \<Rightarrow> Inr (discovered E (length (wire st)))
      | Some e \<Rightarrow> Inl e,
      st\<lparr>wire := wire st @ [Discover]\<rparr>)"

text \<open>Reading \<^verbatim>\<open>client.is_connected\<close>.\<close>

definition is_connected :: "'h outside \<Rightarrow> 'h mario \<Rightarrow> (error + bool) \<times> 'h mario" where
  "is_connected E st =
     (case raised E (length (wire st)) of
        None \<Rightarrow> Inr (connected E (length (wire st)))
      | Some e \<Rightarrow> Inl e,
      st\<lparr>wire := wire st @ [IsConnected]\<rparr>)"

subsection \<open>Commands: \<^verbatim>\<open>set_volume\<close>, \<^verbatim>\<open>disconnect\<close>, \<^verbatim>\<open>request_port_value\<close>\<close>

text \<open>
  \<^verbatim>\<open>set_volume\<close> does not write: it creates the task that will. Building the
  bytearray and creating the task raise nothing the \<^verbatim>\<open>except\<close> clause names; the clause
  is kept as the source has it.
\<close>

definition set_volume :: "mario_data \<Rightarrow> 'h outside \<Rightarrow> int \<Rightarrow> 'h mario \<Rightarrow> (error + unit) \<times> 'h mario" where
  "set_volume D E new_volume st =
     (let new_volume = min (max new_volume 0) 100 in
      case client st of
        None \<Rightarrow> (Inr (), st)
      | Some c \<Rightarrow>
          try_except
            (\<lambda>s. let command = take 5 (MUTE_COMMAND D) @ [word_of_int new_volume]
                 in (Inr (), s\<lparr>tasks := tasks s @ [WriteTask (LEGO_CHARACTERISTIC_UUID D) command]\<rparr>))
            {OSError, BleakError}
            (then_do (log E ''Connection error while setting volume'' newline)
               (\<lambda>s. (Inr (), s\<lparr>tasks := tasks s @ [DisconnectTask]\<rparr>)))
            st)"

definition disconnect :: "mario_data \<Rightarrow> 'h outside \<Rightarrow> 'h mario \<Rightarrow> (error + unit) \<times> 'h mario" where
  "disconnect D E =
     then_do
       (try_except
          (then_do (log E ''Disconnecting... '' newline)
             (\<lambda>s. case client s of
                     None \<Rightarrow> (Inr (), s)
                   | Some c \<Rightarrow>
                       then_do (transport E (WriteGattChar (LEGO_CHARACTERISTIC_UUID D) (DISCONNECT_COMMAND D)))
                         (then_do (transport E ClientDisconnect)
                            (\<lambda>s'. (Inr (), s'\<lparr>client := None\<rparr>))) s))
          {OSError, BleakError}
          (then_do (log E ''Connection error while disconnecting'' newline)
             (\<lambda>s. (Inr (), s\<lparr>client := None\<rparr>))))
       (\<lambda>s. (Inr (), if autoReconnect s then s\<lparr>tasks := tasks s @ [ConnectTask]\<rparr>
                       else s\<lparr>run := False\<rparr>))"

text \<open>
  The \<^verbatim>\<open>assert\<close> on the port is the first statement (as the interpreter runs it by
  default; under \<^verbatim>\<open>-O\<close> asserts are dropped). \<^verbatim>\<open>command = REQUEST_RGB_COMMAND;
  command[3] = port\<close> writes into the module's own object, whatever becomes of the
  transport write afterwards; it raises \<open>IndexError\<close>, which the \<^verbatim>\<open>except\<close> clause does
  not name, if that object has fewer than four bytes.
\<close>

definition request_port_value ::
  "mario_data \<Rightarrow> 'h outside \<Rightarrow> int \<Rightarrow> 'h mario \<Rightarrow> (error + unit) \<times> 'h mario" where
  "request_port_value D E port st =
     (if port \<notin> {0, 1, 2, 3, 4, 6} then (Inl AssertionError, st)
      else case client st of
        None \<Rightarrow> (Inr (), st)
      | Some c \<Rightarrow>
          try_except
            (\<lambda>s. if 3 < length (request_rgb_command s)
                 then (let command = (request_rgb_command s)[3 := word_of_int port]
                       in transport E (WriteGattChar (LEGO_CHARACTERISTIC_UUID D) command)
                            (s\<lparr>request_rgb_command := command\<rparr>))
                 else (Inl IndexError, s))
            {OSError, BleakError}
            (then_do (log E ''Connection error while requesting port value'' newline)
               (disconnect D E))
            st)"

subsection \<open>Connecting\<close>

text \<open>
  \<^verbatim>\<open>str.lower\<close> and \<^verbatim>\<open>str.startswith\<close>, on names of ASCII characters (a \<open>char\<close> is a
  byte; bytes that are no capital letter are left as they are).
\<close>

definition lower_char :: "char \<Rightarrow> char" where
  "lower_char c = (let n = (of_char c :: nat) in if 65 \<le> n \<and> n \<le> 90 then char_of (n + 32) else c)"

definition lower :: "string \<Rightarrow> string" where
  "lower s = map lower_char s"

definition startswith :: "string \<Rightarrow> string \<Rightarrow> bool" where
  "startswith s p = (take (length p) s = p)"

definition is_mario :: "device \<Rightarrow> bool" where
  "is_mario d =
     (case dev_name d of
        None \<Rightarrow> False
      | Some nm \<Rightarrow> nm \<noteq> [] \<and> (startswith (lower nm) ''lego luigi'' \<or> startswith (lower nm) ''lego mario''))"

text \<open>
  The \<^verbatim>\<open>try\<close> block of \<^verbatim>\<open>connect\<close> for one device, with its bare \<^verbatim>\<open>except\<close>, which
  catches every exception. The sleeps between the writes do nothing here; the statement
  \<^verbatim>\<open>client.is_connected\<close> reads the property and drops its value.
\<close>

definition connect_device :: "mario_data \<Rightarrow> 'h outside \<Rightarrow> device \<Rightarrow> 'h mario \<Rightarrow> (error + bool) \<times> 'h mario" where
  "connect_device D E d =
     try_except
       (then_do (transport E (ClientConnect (dev_address d)))
       (then_do (\<lambda>s. (Inr (), s\<lparr>client := Some (dev_address d)\<rparr>))
       (then_do (log E (''Mario Connected: '' @ dev_address d) newline)
       (then_do (transport E (StartNotify (LEGO_CHARACTERISTIC_UUID D)))
       (then_do (transport E (WriteGattChar (LEGO_CHARACTERISTIC_UUID D) (SUBSCRIBE_IMU_COMMAND D)))
       (then_do (transport E (WriteGattChar (LEGO_CHARACTERISTIC_UUID D) (SUBSCRIBE_RGB_COMMAND D)))
       (then_do (transport E (WriteGattChar (LEGO_CHARACTERISTIC_UUID D) (SUBSCRIBE_PANTS_COMMAND D)))
       (then_do (transport E IsConnected)
       (then_do (\<lambda>s. (Inr (), s\<lparr>tasks := tasks s @ [CheckConnectionLoopTask]\<rparr>))
       (then_do (\<lambda>s. case defaultVolume s of
                        None \<Rightarrow> (Inr (), s)
                      | Some v \<Rightarrow> set_volume D E v s)
          (\<lambda>s. (Inr True, s))))))))))))
       UNIV
       (then_do (log E ''Error connecting'' newline)
          (then_do (disconnect D E) (\<lambda>s. (Inr False, s))))"

text \<open>
  The \<^verbatim>\<open>while self._run\<close> loop of \<^verbatim>\<open>connect\<close>, entered with the current value of
  \<^verbatim>\<open>retries\<close>. The \<^verbatim>\<open>for\<close> loop over the devices returns at the first device whose name
  matches, and falls through to the next round of the \<^verbatim>\<open>while\<close> loop if none does.
\<close>

function connect_loop :: "mario_data \<Rightarrow> 'h outside \<Rightarrow> nat \<Rightarrow> 'h mario \<Rightarrow> (error + bool) \<times> 'h mario" where
  "connect_loop D E retries st =
     (if run st then
        (if retries + 1 > 3 then
           then_do (log E ''Stopped after 3 attempts, disconnecting...'' newline)
             (then_do (disconnect D E) (\<lambda>s. (Inr False, s))) st
         else
           (case log E ''Searching for device...'' newline st of
              (Inl e, s1) \<Rightarrow> (Inl e, s1)
            | (Inr _, s1) \<Rightarrow>
                (case discover E s1 of
                   (Inl e, s2) \<Rightarrow> (Inl e, s2)
                 | (Inr devices, s2) \<Rightarrow>
                     (case find is_mario devices of
                        Some d \<Rightarrow> connect_device D E d s2
                      | None \<Rightarrow> connect_loop D E (retries + 1) s2))))
      else then_do (disconnect D E) (\<lambda>s. (Inr False, s)) st)"
  by pat_completeness auto
termination
  by (relation "measure (\<lambda>(D, E, retries, st). 4 - retries)") auto

declare connect_loop.simps [simp del]

definition connect :: "mario_data \<Rightarrow> 'h outside \<Rightarrow> 'h mario \<Rightarrow> (error + bool) \<times> 'h mario" where
  "connect D E st = connect_loop D E 0 (st\<lparr>run := True\<rparr>)"

subsection \<open>The constructor and the event loop\<close>

definition Mario_init ::
  "mario_data \<Rightarrow> bool \<Rightarrow> 'h pyarg \<Rightarrow> 'h pyarg \<Rightarrow> 'h pyarg \<Rightarrow> 'h pyarg \<Rightarrow> int option \<Rightarrow> 'h mario" where
  "Mario_init D doLog0 accelerometerEventHooks0 tileEventHooks0 pantsEventHooks0 logEventHooks0
     defaultVolume0 =
     (let st = \<lparr>doLog = doLog0, run = False, autoReconnect = True, client = None,
                defaultVolume = defaultVolume0, pants = None, ground = None,
                acceleration = None, recentTile = None,
                accelerometerEventHooks = [], tileEventHooks = [], pantsEventHooks = [],
                logEventHooks = [], request_rgb_command = REQUEST_RGB_COMMAND D,
                tasks = [], wire = [], stdout = [], calls = []\<rparr>
      in (AddLogHook logEventHooks0
           (AddPantsHook pantsEventHooks0
             (AddTileHook tileEventHooks0
               (AddAccelerometerHook accelerometerEventHooks0 st))))
         \<lparr>tasks := [ConnectTask]\<rparr>)"

text \<open>
  One pass of the body of \<^verbatim>\<open>check_connection_loop\<close>, up to its sleep; the sleep puts
  the task back on the loop, and the \<^verbatim>\<open>while self._client\<close> test is made when it runs
  again (also after the \<^verbatim>\<open>except\<close> clause, where the source makes the test at once).
\<close>

definition check_connection_loop :: "mario_data \<Rightarrow> 'h outside \<Rightarrow> 'h mario \<Rightarrow> (error + unit) \<times> 'h mario" where
  "check_connection_loop D E st =
     (case client st of
        None \<Rightarrow> (Inr (), st)
      | Some c \<Rightarrow>
          then_do
            (try_except
               (\<lambda>s. case is_connected E s of
                       (Inl e, s') \<Rightarrow> (Inl e, s')
                     | (Inr up, s') \<Rightarrow>
                         if \<not> up
                         then then_do (log E ''Disconnect detected during connection check'' newline)
                                (disconnect D E) s'
                         else (Inr (), s'))
               {OSError, BleakError}
               (then_do (log E ''Error during connection check'' newline) (disconnect D E)))
            (\<lambda>s. (Inr (), s\<lparr>tasks := tasks s @ [CheckConnectionLoopTask]\<rparr>))
            st)"

text \<open>
  The event loop that \<^verbatim>\<open>run()\<close> drives: tasks run in the order they were created, each
  to its end before the next (no other task is interleaved at an \<^verbatim>\<open>await\<close>), and an
  exception that leaves a task leaves \<^verbatim>\<open>run()\<close>. The loop may go on forever, so it is
  given a number of tasks to run; it stops early when no task is left.
\<close>

definition run_task :: "mario_data \<Rightarrow> 'h outside \<Rightarrow> task \<Rightarrow> 'h mario \<Rightarrow> (error + unit) \<times> 'h mario" where
  "run_task D E t st =
     (case t of
        ConnectTask \<Rightarrow> (case connect D E st of (Inl e, s) \<Rightarrow> (Inl e, s) | (Inr b, s) \<Rightarrow> (Inr (), s))
      | DisconnectTask \<Rightarrow> disconnect D E st
      | CheckConnectionLoopTask \<Rightarrow> check_connection_loop D E st
      | WriteTask uuid command \<Rightarrow> transport E (WriteGattChar uuid command) st)"

fun run_loop :: "nat \<Rightarrow> mario_data \<Rightarrow> 'h outside \<Rightarrow> 'h mario \<Rightarrow> (error + unit) \<times> 'h mario" where
  "run_loop 0 D E st = (Inr (), st)"
| "run_loop (Suc n) D E st =
     (case tasks st of
        [] \<Rightarrow> (Inr (), st)
      | t # ts \<Rightarrow> then_do (run_task D E t) (run_loop n D E) (st\<lparr>tasks := ts\<rparr>))"

subsection \<open>Hooks that change the object\<close>

text \<open>
  A hook is handed the object itself and is Python code: it may change the object, the
  registry being walked included (\<^verbatim>\<open>sender.RemoveEventsHook(...)\<close>), and it may raise an
  exception of any class. The loops \<^verbatim>\<open>for func in self._...EventHooks\<close> walk the list
  object itself: Python's list iterator keeps an index, and at every step compares it
  with the length the list has then. This part embeds the dispatch with both: a hook is
  any function of the object, and the loop reads the registry anew at every step. Such a
  loop need not end (a hook may register another hook each time it is called), so it is
  given a number of steps; \<open>None\<close> says that the steps did not suffice.
\<close>

type_synonym 'h hooks = "'h \<Rightarrow> payload \<Rightarrow> 'h mario \<Rightarrow> (error + unit) \<times> 'h mario"

definition invoke_live :: "'h hooks \<Rightarrow> 'h \<Rightarrow> payload \<Rightarrow> 'h mario \<Rightarrow> (error + unit) \<times> 'h mario" where
  "invoke_live H func p st = H func p (st\<lparr>calls := calls st @ [Call func p (cache_of st)]\<rparr>)"

fun call_live ::
  "nat \<Rightarrow> 'h hooks \<Rightarrow> ('h mario \<Rightarrow> 'h list) \<Rightarrow> payload \<Rightarrow> nat \<Rightarrow> 'h mario
     \<Rightarrow> ((error + unit) \<times> 'h mario) option" where
  "call_live 0 H registry p i st = None"
| "call_live (Suc fuel) H registry p i st =
     (if i < length (registry st) then
        (case invoke_live H (registry st ! i) p st of
           (Inl e, st') \<Rightarrow> Some (Inl e, st')
         | (Inr u, st') \<Rightarrow> call_live fuel H registry p (Suc i) st')
      else Some (Inr (), st))"








text \<open>
  The hooks of the first part, as hooks of this one: they leave the object alone, and
  raise \<open>HookError\<close> or return.
\<close>

definition hooks_of :: "'h outside \<Rightarrow> 'h hooks" where
  "hooks_of E func p st = (if hook_raises E func then Inl HookError else Inr (), st)"

subsection \<open>Observing a run\<close>

text \<open>The hook calls made from the object \<open>st\<close> to the later object \<open>st'\<close>, and those of
  them that are not calls of log hooks.\<close>

definition new_calls :: "'h mario \<Rightarrow> 'h mario \<Rightarrow> 'h call list" where
  "new_calls st st' = drop (length (calls st)) (calls st')"

fun is_log_args :: "payload \<Rightarrow> bool" where
  "is_log_args (LogArgs msg) = True"
| "is_log_args (TileArgs tile) = False"
| "is_log_args (AccelerometerArgs x y z) = False"
| "is_log_args (PantsArgs powerup) = False"

definition event_calls :: "'h mario \<Rightarrow> 'h mario \<Rightarrow> 'h call list" where
  "event_calls st st' = filter (\<lambda>c. \<not> is_log_args (args c)) (new_calls st st')"

text \<open>The hooks a loop over \<open>funcs\<close> gets to: all of them up to and including the first
  that raises.\<close>

fun reached :: "'h outside \<Rightarrow> 'h list \<Rightarrow> 'h list" where
  "reached E [] = []"
| "reached E (func # funcs) = func # (if hook_raises E func then [] else reached E funcs)"

text \<open>The callables inside a registration argument, in the order iteration meets them.\<close>

fun callables :: "'h pyarg \<Rightarrow> 'h list" where
  "callables (Callable f) = [f]"
| "callables (Iterable fs) = concat (map callables fs)"
| "callables Other = []"

text \<open>A call is fresh when the cache its hook saw already held the event it was called
  with; a log hook is called with a message, of which the cache holds nothing.\<close>

fun fresh :: "'h call \<Rightarrow> bool" where
  "fresh (Call func (TileArgs tile) c) = (c_ground c = Some tile)"
| "fresh (Call func (AccelerometerArgs x y z) c) = (c_acceleration c = Some (x, y, z))"
| "fresh (Call func (PantsArgs powerup) c) = (c_pants c = Some powerup)"
| "fresh (Call func (LogArgs msg) c) = True"

text \<open>Three properties of a piece of the driver (a function from the object to a result
  and the object after): it never raises \<open>IndexError\<close>; whenever it raises \<open>IndexError\<close>
  it has done nothing yet; every hook call it makes is fresh.\<close>

definition no_index_error :: "('s \<Rightarrow> (error + 'a) \<times> 's) \<Rightarrow> bool" where
  "no_index_error f = (\<forall>s. fst (f s) \<noteq> Inl IndexError)"

definition index_error_first :: "('s \<Rightarrow> (error + 'a) \<times> 's) \<Rightarrow> bool" where
  "index_error_first f = (\<forall>s. fst (f s) = Inl IndexError \<longrightarrow> snd (f s) = s)"

definition calls_fresh :: "('h mario \<Rightarrow> (error + 'a) \<times> 'h mario) \<Rightarrow> bool" where
  "calls_fresh f = (\<forall>s. \<exists>cs. calls (snd (f s)) = calls s @ cs \<and> list_all fresh cs)"

text \<open>A piece of the driver only ever adds to the record of transport calls.\<close>

definition wire_grows :: "('h mario \<Rightarrow> (error + 'a) \<times> 'h mario) \<Rightarrow> bool" where
  "wire_grows f = (\<forall>s. \<exists>ws. wire (snd (f s)) = wire s @ ws)"



subsection \<open>A small instance\<close>

text \<open>Tables with one tile and one pair of pants, and an outside in which no device is
  in range, the transport raises nothing and every hook returns.\<close>

definition demo_data :: mario_data where
  "demo_data =
     \<lparr>HEX_TO_RGB_TILE = [0xb8 \<mapsto> ''Start''],
      HEX_TO_COLOR_TILE = Map.empty,
      HEX_TO_PANTS = [0x21 \<mapsto> ''Mario''],
      HEX_TO_HUB_ACTIONS = Map.empty,
      HEX_TO_HUB_PROPERTIES = Map.empty,
      BINARY_GESTURES = [],
      LEGO_CHARACTERISTIC_UUID = ''uuid'',
      SUBSCRIBE_IMU_COMMAND = [0x0a, 0x00, 0x41, 0x00, 0x00],
      SUBSCRIBE_RGB_COMMAND = [0x0a, 0x00, 0x41, 0x01, 0x00],
      SUBSCRIBE_PANTS_COMMAND = [0x0a, 0x00, 0x41, 0x02, 0x00],
      REQUEST_RGB_COMMAND = [0x05, 0x00, 0x21, 0x01, 0x00],
      MUTE_COMMAND = [0x06, 0x00, 0x01, 0x12, 0x01, 0x00],
      DISCONNECT_COMMAND = [0x04, 0x00, 0x02, 0x02]\<rparr>"

definition quiet :: "nat outside" where
  "quiet = \<lparr>discovered = (\<lambda>k. []), raised = (\<lambda>k. None), connected = (\<lambda>k. True),
             hook_raises = (\<lambda>h. False)\<rparr>"

text \<open>An object with an accelerometer hook 3, the tile hooks 1, 2 and 1 again, a pants
  hook 4 and no log hook.\<close>

definition demo_mario :: "nat mario" where
  "demo_mario =
     Mario_init demo_data True (Callable 3) (Iterable [Callable 1, Callable 2, Callable 1])
       (Callable 4) Other None"

text \<open>A camera notification with tile code \<open>0xb8\<close>.\<close>

definition tile_frame :: "byte list" where
  "tile_frame = [0x08, 0x00, 0x45, 0x01, 0xb8, 0x00, 0x00, 0x00]"

text \<open>An accelerometer notification with the raw bytes \<open>0x80\<close>, \<open>0x7f\<close>, \<open>0xff\<close>, and
  the object of above once a client is connected.\<close>

definition imu_frame :: "byte list" where
  "imu_frame = [0x07, 0x00, 0x45, 0x00, 0x80, 0x7f, 0xff]"

definition connected_mario :: "nat mario" where
  "connected_mario = demo_mario\<lparr>client := Some ''d8:3a:dd:00:00:01''\<rparr>"




section \<open>Auxiliary facts\<close>

subsection \<open>Hook loops and registries\<close>

lemma cache_of_calls: "cache_of (st\<lparr>calls := cs\<rparr>) = cache_of st"
  by (simp add: cache_of_def)

lemma call_each_eq:
  "call_each E hs p st =
     (if \<exists>h\<in>set hs. hook_raises E h then Inl HookError else Inr (),
      st\<lparr>calls := calls st @ map (\<lambda>h. Call h p (cache_of st)) (reached E hs)\<rparr>)"
proof (induction hs arbitrary: st)
  case Nil
  show ?case by simp
next
  case (Cons h hs)
  show ?case
    by (simp add: then_do_def invoke_def Cons.IH cache_of_calls)
qed

lemma reached_all: "\<forall>h\<in>set hs. \<not> hook_raises E h \<Longrightarrow> reached E hs = hs"
  by (induction hs) auto

lemma call_each_ok:
  assumes "\<forall>h\<in>set hs. \<not> hook_raises E h"
  shows "call_each E hs p st = (Inr (), st\<lparr>calls := calls st @ map (\<lambda>h. Call h p (cache_of st)) hs\<rparr>)"
  using assms by (simp add: call_each_eq reached_all)

lemma log_ok:
  assumes "\<forall>h\<in>set (logEventHooks st). \<not> hook_raises E h"
  shows "log E msg ending st =
    (Inr (), st\<lparr>calls := calls st @ map (\<lambda>h. Call h (LogArgs msg) (cache_of st)) (logEventHooks st),
                 stdout := (if doLog st
                            then stdout st @ [ljust 100 (CHR 0x0D # address_of st @ '': '' @ msg) @ ending]
                            else stdout st)\<rparr>)"
  using assms by (simp add: log_def then_do_def call_each_ok address_of_def)

lemma log_eq:
  "log E msg ending st =
     (if \<exists>h\<in>set (logEventHooks st). hook_raises E h
      then (Inl HookError,
            st\<lparr>calls := calls st @ map (\<lambda>h. Call h (LogArgs msg) (cache_of st)) (reached E (logEventHooks st))\<rparr>)
      else (Inr (),
            st\<lparr>calls := calls st @ map (\<lambda>h. Call h (LogArgs msg) (cache_of st)) (logEventHooks st),
               stdout := (if doLog st
                          then stdout st @ [ljust 100 (CHR 0x0D # address_of st @ '': '' @ msg) @ ending]
                          else stdout st)\<rparr>))"
  by (simp add: log_def then_do_def call_each_eq reached_all address_of_def)

lemma then_do_log_ok:
  assumes "\<forall>h\<in>set (logEventHooks st). \<not> hook_raises E h"
  shows "then_do (log E msg ending) g st =
    g (st\<lparr>calls := calls st @ map (\<lambda>h. Call h (LogArgs msg) (cache_of st)) (logEventHooks st),
           stdout := (if doLog st
                      then stdout st @ [ljust 100 (CHR 0x0D # address_of st @ '': '' @ msg) @ ending]
                      else stdout st)\<rparr>)"
  by (simp add: then_do_def log_ok [OF assms])


lemma callTileHooks_eq:
  "callTileHooks E tile st =
     (if \<exists>h\<in>set (tileEventHooks st). hook_raises E h then Inl HookError else Inr (),
      st\<lparr>ground := Some tile,
         calls := calls st @ map (\<lambda>h. Call h (TileArgs tile) (cache_of (st\<lparr>ground := Some tile\<rparr>)))
                             (reached E (tileEventHooks st))\<rparr>)"
  by (simp add: callTileHooks_def call_each_eq Let_def)

lemma callPantsHooks_eq:
  "callPantsHooks E powerup st =
     (if \<exists>h\<in>set (pantsEventHooks st). hook_raises E h then Inl HookError else Inr (),
      st\<lparr>pants := Some powerup,
         calls := calls st @ map (\<lambda>h. Call h (PantsArgs powerup) (cache_of (st\<lparr>pants := Some powerup\<rparr>)))
                             (reached E (pantsEventHooks st))\<rparr>)"
  by (simp add: callPantsHooks_def call_each_eq Let_def)

lemma callAccelerometerHooks_eq:
  "callAccelerometerHooks E x y z st =
     (if \<exists>h\<in>set (accelerometerEventHooks st). hook_raises E h then Inl HookError else Inr (),
      st\<lparr>acceleration := Some (x, y, z),
         calls := calls st @ map (\<lambda>h. Call h (AccelerometerArgs x y z)
                                     (cache_of (st\<lparr>acceleration := Some (x, y, z)\<rparr>)))
                             (reached E (accelerometerEventHooks st))\<rparr>)"
  by (simp add: callAccelerometerHooks_def call_each_eq Let_def)

lemma new_calls_append: "calls st' = calls st @ cs \<Longrightarrow> new_calls st st' = cs"
  by (simp add: new_calls_def)

lemma new_calls_self: "new_calls st (st\<lparr>calls := calls st @ cs\<rparr>) = cs"
  by (simp add: new_calls_def)

lemma new_calls_tile:
  "new_calls st (snd (callTileHooks E tile st)) =
     map (\<lambda>h. Call h (TileArgs tile) (cache_of (st\<lparr>ground := Some tile\<rparr>))) (reached E (tileEventHooks st))"
  by (rule new_calls_append) (simp add: callTileHooks_eq)

lemma new_calls_pants:
  "new_calls st (snd (callPantsHooks E powerup st)) =
     map (\<lambda>h. Call h (PantsArgs powerup) (cache_of (st\<lparr>pants := Some powerup\<rparr>))) (reached E (pantsEventHooks st))"
  by (rule new_calls_append) (simp add: callPantsHooks_eq)

lemma new_calls_acc:
  "new_calls st (snd (callAccelerometerHooks E x y z st)) =
     map (\<lambda>h. Call h (AccelerometerArgs x y z) (cache_of (st\<lparr>acceleration := Some (x, y, z)\<rparr>)))
       (reached E (accelerometerEventHooks st))"
  by (rule new_calls_append) (simp add: callAccelerometerHooks_eq)

lemma new_calls_log:
  "new_calls st (snd (log E msg ending st)) =
     map (\<lambda>h. Call h (LogArgs msg) (cache_of st)) (reached E (logEventHooks st))"
  by (rule new_calls_append) (simp add: log_eq reached_all)


lemma event_calls_log_then:
  "filter (\<lambda>c. \<not> is_log_args (args c)) (map (\<lambda>h. Call h (LogArgs msg) c0) hs @ cs)
     = filter (\<lambda>c. \<not> is_log_args (args c)) cs"
  by (induction hs) simp_all

lemma filter_acc_calls:
  "filter (\<lambda>c. \<not> is_log_args (args c)) (map (\<lambda>h. Call h (AccelerometerArgs x y z) c0) hs)
     = map (\<lambda>h. Call h (AccelerometerArgs x y z) c0) hs"
  by (induction hs) simp_all


lemma fold_register:
  assumes step: "\<And>x s. x \<in> set fs \<Longrightarrow> f x s = upd (\<lambda>_. sel s @ callables x) s"
    and sel_upd: "\<And>g s. sel (upd g s) = g (sel s)"
    and upd_upd: "\<And>g h s. upd g (upd h s) = upd (g \<circ> h) s"
    and upd_id: "\<And>s. upd (\<lambda>_. sel s) s = s"
  shows "fold f fs st = upd (\<lambda>_. sel st @ concat (map callables fs)) st"
  using step
proof (induction fs arbitrary: st)
  case Nil
  show ?case by (simp add: upd_id)
next
  case (Cons x fs)
  have "fold f (x # fs) st = fold f fs (upd (\<lambda>_. sel st @ callables x) st)"
    by (simp add: Cons.prems)
  also have "\<dots> = upd (\<lambda>_. sel (upd (\<lambda>_. sel st @ callables x) st) @ concat (map callables fs))
                     (upd (\<lambda>_. sel st @ callables x) st)"
    by (rule Cons.IH) (simp add: Cons.prems)
  also have "\<dots> = upd (\<lambda>_. sel st @ concat (map callables (x # fs))) st"
    by (simp add: sel_upd upd_upd comp_def)
  finally show ?case .
qed

lemma AddTileHook_eq: "AddTileHook a st = st\<lparr>tileEventHooks := tileEventHooks st @ callables a\<rparr>"
proof (induction a arbitrary: st)
  case (Iterable fs)
  have "fold AddTileHook fs st = tileEventHooks_update (\<lambda>_. tileEventHooks st @ concat (map callables fs)) st"
    by (rule fold_register [where sel = tileEventHooks]) (simp_all add: Iterable.IH comp_def)
  then show ?case by simp
qed simp_all

lemma AddLogHook_eq: "AddLogHook a st = st\<lparr>logEventHooks := logEventHooks st @ callables a\<rparr>"
proof (induction a arbitrary: st)
  case (Iterable fs)
  have "fold AddLogHook fs st = logEventHooks_update (\<lambda>_. logEventHooks st @ concat (map callables fs)) st"
    by (rule fold_register [where sel = logEventHooks]) (simp_all add: Iterable.IH comp_def)
  then show ?case by simp
qed simp_all

lemma AddPantsHook_eq: "AddPantsHook a st = st\<lparr>pantsEventHooks := pantsEventHooks st @ callables a\<rparr>"
proof (induction a arbitrary: st)
  case (Iterable fs)
  have "fold AddPantsHook fs st = pantsEventHooks_update (\<lambda>_. pantsEventHooks st @ concat (map callables fs)) st"
    by (rule fold_register [where sel = pantsEventHooks]) (simp_all add: Iterable.IH comp_def)
  then show ?case by simp
qed simp_all

lemma AddAccelerometerHook_eq:
  "AddAccelerometerHook a st = st\<lparr>accelerometerEventHooks := accelerometerEventHooks st @ callables a\<rparr>"
proof (induction a arbitrary: st)
  case (Iterable fs)
  have "fold AddAccelerometerHook fs st =
          accelerometerEventHooks_update (\<lambda>_. accelerometerEventHooks st @ concat (map callables fs)) st"
    by (rule fold_register [where sel = accelerometerEventHooks]) (simp_all add: Iterable.IH comp_def)
  then show ?case by simp
qed simp_all





lemma Mario_init_fields:
  "tasks (Mario_init D dl a t p l dv) = [ConnectTask]" "autoReconnect (Mario_init D dl a t p l dv)"
  "client (Mario_init D dl a t p l dv) = None" "wire (Mario_init D dl a t p l dv) = []"
  "run (Mario_init D dl a t p l dv) = False"
  by (simp_all add: Mario_init_def AddLogHook_eq AddPantsHook_eq AddTileHook_eq AddAccelerometerHook_eq)

lemma demo_mario_fields:
  "tileEventHooks demo_mario = [1, 2, 1]" "logEventHooks demo_mario = []"
  "pantsEventHooks demo_mario = [4]" "accelerometerEventHooks demo_mario = [3]"
  "calls demo_mario = []" "client demo_mario = None" "doLog demo_mario = True"
  "ground demo_mario = None" "pants demo_mario = None" "acceleration demo_mario = None"
  "recentTile demo_mario = None" "stdout demo_mario = []" "wire demo_mario = []"
  "tasks demo_mario = [ConnectTask]" "autoReconnect demo_mario = True" "run demo_mario = False"
  by (simp_all add: demo_mario_def Mario_init_def)

subsection \<open>Paths through \<^verbatim>\<open>_handle_events\<close>\<close>

lemma item_in: "i < length data \<Longrightarrow> item data i k = k (data ! i)"
  by (rule ext) (simp add: item_def)

lemma item_out: "\<not> i < length data \<Longrightarrow> item data i k st = (Inl IndexError, st)"
  by (simp add: item_def)

lemma handle_events_tile:
  assumes "6 < length data" "data ! 2 = 0x45" "data ! 3 = 0x01" "data ! 5 = 0x00"
  shows "handle_events D E data st =
    then_do (log E (dict_get (HEX_TO_RGB_TILE D) (data ! 4) (''Unkown Tile Code: '' @ py_hex (unat (data ! 4)))
                    @ '' Tile, Hex: '' @ bytes_hex data) newline)
      (callTileHooks E (dict_get (HEX_TO_RGB_TILE D) (data ! 4) (''Unkown Tile Code: '' @ py_hex (unat (data ! 4)))))
      (st\<lparr>recentTile := Some (dict_get (HEX_TO_RGB_TILE D) (data ! 4) (''Unkown Tile Code: '' @ py_hex (unat (data ! 4))))\<rparr>)"
proof -
  have len: "2 < length data" "3 < length data" "4 < length data" "5 < length data"
    using assms(1) by simp_all
  show ?thesis
  proof (cases "data ! 6 = 0")
    case True
    then show ?thesis
      by (simp add: handle_events_def item_in assms len Let_def)
  next
    case False
    then show ?thesis
      by (simp add: handle_events_def item_in assms len Let_def)
  qed
qed

lemma handle_events_raw:
  assumes "6 < length data" "data ! 2 = 0x45" "data ! 3 = 0x00" "take 2 (drop 4 data) \<noteq> drop 6 data"
  shows "handle_events D E data st =
    then_do (log E (''X: '' @ fmt_i (signed_py (uint (data ! 4))) @ '' Y: '' @ fmt_i (signed_py (uint (data ! 5)))
                    @ '' Z: '' @ fmt_i (signed_py (uint (data ! 6)))) [])
      (callAccelerometerHooks E (signed_py (uint (data ! 4))) (signed_py (uint (data ! 5))) (signed_py (uint (data ! 6))))
      st"
  using assms by (simp add: handle_events_def item_in Let_def)

lemma handle_events_pants:
  assumes "4 < length data" "data ! 2 = 0x45" "data ! 3 = 0x02"
  shows "handle_events D E data st =
    then_do (log E (dict_get (HEX_TO_PANTS D) (data ! 4) ''Unkown'' @ '' Pants, Pants-Only Binary: ''
                    @ py_bin (unat (data ! 4)) @ '',Hex: '' @ bytes_hex data) newline)
      (callPantsHooks E (dict_get (HEX_TO_PANTS D) (data ! 4) ''Unkown'')) st"
proof -
  have len: "2 < length data" "3 < length data"
    using assms(1) by simp_all
  show ?thesis
    by (simp add: handle_events_def item_in assms len Let_def)
qed

lemma handle_events_short:
  assumes "length data < 3"
  shows "handle_events D E data st = (Inl IndexError, st)"
  using assms by (simp add: handle_events_def item_out Let_def)

subsection \<open>Where \<open>IndexError\<close> can come from\<close>

lemma nie_log: "no_index_error (log E msg ending)"
  by (simp add: no_index_error_def log_eq)

lemma nie_tile: "no_index_error (callTileHooks E tile)"
  by (simp add: no_index_error_def callTileHooks_eq)

lemma nie_pants: "no_index_error (callPantsHooks E powerup)"
  by (simp add: no_index_error_def callPantsHooks_eq)

lemma nie_acc: "no_index_error (callAccelerometerHooks E x y z)"
  by (simp add: no_index_error_def callAccelerometerHooks_eq)

lemma nie_then: "no_index_error f \<Longrightarrow> no_index_error g \<Longrightarrow> no_index_error (then_do f g)"
  unfolding no_index_error_def
proof
  fix s
  assume f: "\<forall>s. fst (f s) \<noteq> Inl IndexError" and g: "\<forall>s. fst (g s) \<noteq> Inl IndexError"
  obtain r s1 where fs: "f s = (r, s1)" by (cases "f s")
  have "r \<noteq> Inl IndexError" using f fs by (metis fst_conv)
  then show "fst (then_do f g s) \<noteq> Inl IndexError"
    using fs g by (cases r) (simp_all add: then_do_def)
qed

lemma nie_return: "no_index_error (\<lambda>s. (Inr x, h s))"
  by (simp add: no_index_error_def)

lemma nie_after: "no_index_error (then_do f g) \<Longrightarrow> no_index_error (\<lambda>s. then_do f g (u s))"
  by (simp add: no_index_error_def)

lemma ief_nie: "no_index_error f \<Longrightarrow> index_error_first f"
  by (simp add: no_index_error_def index_error_first_def)

lemma ief_item: "(\<And>b. index_error_first (k b)) \<Longrightarrow> index_error_first (item data i k)"
  by (simp add: index_error_first_def item_def)

lemma ief_if: "index_error_first f \<Longrightarrow> index_error_first g \<Longrightarrow> index_error_first (if c then f else g)"
  by simp

lemma index_error_first_handle_events: "index_error_first (handle_events D E data)"
  unfolding handle_events_def Let_def
  by (rule ief_item | rule ief_if | rule ief_nie
      | rule nie_log | rule nie_tile | rule nie_pants | rule nie_acc | rule nie_then
      | rule nie_after | rule nie_return)+

subsection \<open>Every hook call is fresh\<close>

lemma cf_log: "calls_fresh (log E msg ending)"
  by (simp add: calls_fresh_def log_eq list_all_iff)

lemma cf_tile: "calls_fresh (callTileHooks E tile)"
  by (simp add: calls_fresh_def callTileHooks_eq list_all_iff cache_of_def)

lemma cf_pants: "calls_fresh (callPantsHooks E powerup)"
  by (simp add: calls_fresh_def callPantsHooks_eq list_all_iff cache_of_def)

lemma cf_acc: "calls_fresh (callAccelerometerHooks E x y z)"
  by (simp add: calls_fresh_def callAccelerometerHooks_eq list_all_iff cache_of_def)

lemma cf_then: 
  assumes "calls_fresh f" "calls_fresh g" 
  shows "calls_fresh (then_do f g)"
  unfolding calls_fresh_def
proof
  fix s
  obtain r s1 where f: "f s = (r, s1)" by (cases "f s")
  obtain cs where cs: "calls s1 = calls s @ cs" "list_all fresh cs"
    using assms(1) f unfolding calls_fresh_def by (metis snd_conv)
  show "\<exists>cs. calls (snd (then_do f g s)) = calls s @ cs \<and> list_all fresh cs"
  proof (cases r)
    case (Inl e)
    then show ?thesis using f cs by (simp add: then_do_def)
  next
    case (Inr u)
    obtain ds where ds: "calls (snd (g s1)) = calls s1 @ ds" "list_all fresh ds"
      using assms(2) unfolding calls_fresh_def by blast
    have "calls (snd (then_do f g s)) = calls s @ (cs @ ds)"
      using f Inr cs ds by (simp add: then_do_def)
    moreover have "list_all fresh (cs @ ds)"
      using cs ds by simp
    ultimately show ?thesis by blast
  qed
qed

lemma cf_return: "calls_fresh (\<lambda>s. (Inr x, s))"
  by (simp add: calls_fresh_def)

lemma cf_create_task: "calls_fresh (\<lambda>s. (Inr x, if c then s\<lparr>tasks := tasks s @ ts\<rparr> else s))"
  by (simp add: calls_fresh_def)

lemma cf_after:
  assumes "calls_fresh (then_do f g)"
  shows "calls_fresh (\<lambda>s. then_do f g (s\<lparr>recentTile := v\<rparr>))"
  unfolding calls_fresh_def
proof
  fix s
  obtain cs where "calls (snd (then_do f g (s\<lparr>recentTile := v\<rparr>))) = calls (s\<lparr>recentTile := v\<rparr>) @ cs"
    and "list_all fresh cs"
    using assms unfolding calls_fresh_def by blast
  then show "\<exists>cs. calls (snd (then_do f g (s\<lparr>recentTile := v\<rparr>))) = calls s @ cs \<and> list_all fresh cs"
    by auto
qed

lemma cf_item: "(\<And>b. calls_fresh (k b)) \<Longrightarrow> calls_fresh (item data i k)"
  by (simp add: calls_fresh_def item_def)

lemma cf_if: "calls_fresh f \<Longrightarrow> calls_fresh g \<Longrightarrow> calls_fresh (if c then f else g)"
  by simp

lemma calls_fresh_handle_events: "calls_fresh (handle_events D E data)"
  unfolding handle_events_def Let_def
  by (rule cf_item | rule cf_if | rule cf_log | rule cf_tile | rule cf_pants | rule cf_acc
      | rule cf_then | rule cf_after | rule cf_return | rule cf_create_task)+

lemma new_calls_fresh: "calls_fresh f \<Longrightarrow> list_all fresh (new_calls st (snd (f st)))"
  unfolding calls_fresh_def new_calls_def by (metis append_eq_conv_conj)

subsection \<open>The signed byte as two's complement\<close>

lemma signed_py_sint: "signed_py (uint (b :: byte)) = sint b"
proof -
  have r: "0 \<le> uint b" "uint b < 256"
    using uint_lt2p [of b] by simp_all
  have "sint b = signed_take_bit 7 (uint b)"
    by (simp add: sint_uint)
  also have "\<dots> = (uint b + 128) mod 256 - 128"
    by (simp add: signed_take_bit_eq_take_bit_shift take_bit_eq_mod)
  also have "\<dots> = signed_py (uint b)"
  proof (cases "uint b > 127")
    case True
    have e: "uint b + 128 = (uint b - 128) + 256"
      by arith
    have "(uint b + 128) mod 256 = (uint b - 128) mod 256"
      by (subst e) (rule mod_add_self2)
    also have "\<dots> = uint b - 128"
      using r True by (simp add: mod_pos_pos_trivial)
    finally show ?thesis using True by (simp add: signed_py_def)
  next
    case False
    then have "(uint b + 128) mod 256 = uint b + 128"
      using r by (simp add: mod_pos_pos_trivial)
    then show ?thesis using False by (simp add: signed_py_def)
  qed
  finally show ?thesis by simp
qed

lemma signed_py_range: "- 128 \<le> signed_py (uint (b :: byte)) \<and> signed_py (uint b) \<le> 127"
proof -
  have lt: "uint b < 256"
    using uint_lt2p [of b] by simp
  have "0 \<le> uint b"
    by simp
  then have ge: "- 128 \<le> uint b"
    by linarith
  show ?thesis
  proof (cases "127 < uint b")
    case True
    then show ?thesis using lt by (simp add: signed_py_def)
  next
    case False
    then show ?thesis using ge by (simp add: signed_py_def)
  qed
qed

subsection \<open>Transport calls are only ever added\<close>

lemma wg_log: "wire_grows (log E msg ending)"
  by (simp add: wire_grows_def log_eq)

lemma wg_transport: "wire_grows (transport E c)"
  by (simp add: wire_grows_def transport_def)

lemma wg_then:
  assumes "wire_grows f" "wire_grows g"
  shows "wire_grows (then_do f g)"
  unfolding wire_grows_def
proof
  fix s
  obtain r s1 where f: "f s = (r, s1)" by (cases "f s")
  obtain ws where ws: "wire s1 = wire s @ ws"
    using assms(1) f unfolding wire_grows_def by (metis snd_conv)
  show "\<exists>ws. wire (snd (then_do f g s)) = wire s @ ws"
  proof (cases r)
    case (Inl e)
    then show ?thesis using f ws by (simp add: then_do_def)
  next
    case (Inr u)
    obtain vs where "wire (snd (g s1)) = wire s1 @ vs"
      using assms(2) unfolding wire_grows_def by blast
    then have "wire (snd (then_do f g s)) = wire s @ (ws @ vs)"
      using f Inr ws by (simp add: then_do_def)
    then show ?thesis by blast
  qed
qed

lemma wg_try:
  assumes "wire_grows f" "wire_grows g"
  shows "wire_grows (try_except f caught g)"
  unfolding wire_grows_def
proof
  fix s
  obtain r s1 where f: "f s = (r, s1)" by (cases "f s")
  obtain ws where ws: "wire s1 = wire s @ ws"
    using assms(1) f unfolding wire_grows_def by (metis snd_conv)
  obtain vs where vs: "wire (snd (g s1)) = wire s1 @ vs"
    using assms(2) unfolding wire_grows_def by blast
  show "\<exists>ws. wire (snd (try_except f caught g s)) = wire s @ ws"
  proof (cases r)
    case (Inl e)
    show ?thesis
    proof (cases "e \<in> caught")
      case True
      then have "wire (snd (try_except f caught g s)) = wire s @ (ws @ vs)"
        using f Inl ws vs by (simp add: try_except_def)
      then show ?thesis by blast
    next
      case False
      then show ?thesis using f Inl ws by (simp add: try_except_def)
    qed
  next
    case (Inr u)
    then show ?thesis using f ws by (simp add: try_except_def)
  qed
qed

lemma wg_return: "(\<And>s. wire (h s) = wire s) \<Longrightarrow> wire_grows (\<lambda>s. (Inr x, h s))"
  by (simp add: wire_grows_def)

lemma wg_client_case:
  "wire_grows f \<Longrightarrow> (\<And>c. wire_grows (g c)) \<Longrightarrow> wire_grows (\<lambda>s. case client s of None \<Rightarrow> f s | Some c \<Rightarrow> g c s)"
  by (simp add: wire_grows_def split: option.split)

lemma wg_disconnect: "wire_grows (disconnect D E)"
  unfolding disconnect_def
  apply (rule wg_then)
   apply (rule wg_try)
    apply (rule wg_then)
     apply (rule wg_log)
    apply (rule wg_client_case)
     apply (rule wg_return, simp)
    apply (rule wg_then, rule wg_transport)
    apply (rule wg_then, rule wg_transport)
    apply (rule wg_return, simp)
   apply (rule wg_then, rule wg_log)
   apply (rule wg_return, simp)
  apply (rule wg_return, simp)
  done

subsection \<open>Scanning with no device in range\<close>

lemma disconnect_idle:
  assumes ok: "\<forall>h\<in>set (logEventHooks st). \<not> hook_raises E h"
    and st: "client st = None"
  shows "fst (disconnect D E st) = Inr ()
    \<and> tasks (snd (disconnect D E st)) = tasks st @ (if autoReconnect st then [ConnectTask] else [])
    \<and> run (snd (disconnect D E st)) = (run st \<and> autoReconnect st)
    \<and> autoReconnect (snd (disconnect D E st)) = autoReconnect st
    \<and> client (snd (disconnect D E st)) = None
    \<and> wire (snd (disconnect D E st)) = wire st
    \<and> logEventHooks (snd (disconnect D E st)) = logEventHooks st"
  unfolding disconnect_def
  by (simp add: log_ok [OF ok] then_do_def try_except_def st)

lemma scan_round:
  assumes ok: "\<forall>h\<in>set (logEventHooks st). \<not> hook_raises E h"
    and E: "raised E (length (wire st)) = None" "find is_mario (discovered E (length (wire st))) = None"
    and st: "run st" "retries < 3"
  shows "connect_loop D E retries st =
    connect_loop D E (retries + 1)
      (st\<lparr>calls := calls st @ map (\<lambda>h. Call h (LogArgs ''Searching for device...'') (cache_of st)) (logEventHooks st),
          stdout := (if doLog st
                     then stdout st @ [ljust 100 (CHR 0x0D # address_of st @ '': '' @ ''Searching for device...'') @ newline]
                     else stdout st),
          wire := wire st @ [Discover]\<rparr>)"
  using st E by (subst connect_loop.simps) (simp add: log_ok [OF ok] discover_def)

lemma scan_stop:
  assumes "run st" "3 \<le> retries"
  shows "connect_loop D E retries st =
    then_do (log E ''Stopped after 3 attempts, disconnecting...'' newline)
      (then_do (disconnect D E) (\<lambda>s. (Inr False, s))) st"
  using assms by (subst connect_loop.simps) simp

lemma connect_loop_idle:
  assumes E: "\<And>k. raised E k = None" "\<And>k. find is_mario (discovered E k) = None"
      "\<And>h. \<not> hook_raises E h"
    and st: "run st" "client st = None"
    and r: "retries \<le> 3"
  shows "fst (connect_loop D E retries st) = Inr False
    \<and> tasks (snd (connect_loop D E retries st)) = tasks st @ (if autoReconnect st then [ConnectTask] else [])
    \<and> run (snd (connect_loop D E retries st)) = autoReconnect st
    \<and> autoReconnect (snd (connect_loop D E retries st)) = autoReconnect st
    \<and> client (snd (connect_loop D E retries st)) = None
    \<and> wire (snd (connect_loop D E retries st)) = wire st @ replicate (3 - retries) Discover"
  using st r
proof (induction "3 - retries" arbitrary: retries st)
  case 0
  then have three: "3 \<le> retries"
    by simp
  define s1 where "s1 = st\<lparr>calls := calls st @ map (\<lambda>h. Call h (LogArgs ''Stopped after 3 attempts, disconnecting...'')
                                      (cache_of st)) (logEventHooks st),
      stdout := (if doLog st
                 then stdout st @ [ljust 100 (CHR 0x0D # address_of st @ '': ''
                        @ ''Stopped after 3 attempts, disconnecting...'') @ newline]
                 else stdout st)\<rparr>"
  have ok: "\<forall>h\<in>set (logEventHooks s) . \<not> hook_raises E h" for s :: "'a mario"
    by (simp add: E)
  have s1: "autoReconnect s1 = autoReconnect st" "client s1 = None" "tasks s1 = tasks st" "run s1"
      "wire s1 = wire st"
    using "0.prems" by (simp_all add: s1_def)
  have "connect_loop D E retries st = then_do (disconnect D E) (\<lambda>s. (Inr False, s)) s1"
    unfolding scan_stop [OF "0.prems"(1) three] s1_def by (rule then_do_log_ok [OF ok])
  also have "\<dots> = (Inr False, snd (disconnect D E s1))"
    using disconnect_idle [OF ok s1(2), of D]
    by (cases "disconnect D E s1") (simp add: then_do_def)
  finally show ?case
    using disconnect_idle [OF ok s1(2), of D] s1 three by simp
next
  case (Suc k)
  then have less: "retries < 3" and k: "k = 3 - (retries + 1)"
    by simp_all
  define s1 where "s1 = st\<lparr>calls := calls st @ map (\<lambda>h. Call h (LogArgs ''Searching for device...'') (cache_of st))
                                      (logEventHooks st),
          stdout := (if doLog st
                     then stdout st @ [ljust 100 (CHR 0x0D # address_of st @ '': '' @ ''Searching for device...'') @ newline]
                     else stdout st),
          wire := wire st @ [Discover]\<rparr>"
  have ok: "\<forall>h\<in>set (logEventHooks st) . \<not> hook_raises E h"
    by (simp add: E)
  have s1: "run s1" "client s1 = None" "autoReconnect s1 = autoReconnect st" "tasks s1 = tasks st"
      "wire s1 = wire st @ [Discover]"
    using Suc.prems by (simp_all add: s1_def)
  have step: "connect_loop D E retries st = connect_loop D E (retries + 1) s1"
    unfolding s1_def by (rule scan_round [OF ok E(1) E(2) Suc.prems(1) less])
  have "Suc (3 - (retries + 1)) = 3 - retries"
    using less by simp
  then have rep: "Discover # replicate (3 - (retries + 1)) Discover = replicate (3 - retries) Discover"
    by (metis replicate_Suc)
  have le: "retries + 1 \<le> 3"
    using less by simp
  show ?case
    using Suc.hyps(1) [OF k s1(1) s1(2) le] s1 rep by (simp add: step)
qed

lemma connect_idle:
  assumes E: "\<And>k. raised E k = None" "\<And>k. find is_mario (discovered E k) = None"
      "\<And>h. \<not> hook_raises E h"
    and st: "client st = None"
  shows "fst (connect D E st) = Inr False
    \<and> tasks (snd (connect D E st)) = tasks st @ (if autoReconnect st then [ConnectTask] else [])
    \<and> run (snd (connect D E st)) = autoReconnect st
    \<and> autoReconnect (snd (connect D E st)) = autoReconnect st
    \<and> client (snd (connect D E st)) = None
    \<and> wire (snd (connect D E st)) = wire st @ replicate 3 Discover"
  using connect_loop_idle [OF E, of "st\<lparr>run := True\<rparr>" 0 D] st
  by (simp add: connect_def)

lemma run_loop_idle:
  assumes E: "\<And>k. raised E k = None" "\<And>k. find is_mario (discovered E k) = None"
      "\<And>h. \<not> hook_raises E h"
    and st: "tasks st = [ConnectTask]" "autoReconnect st" "client st = None"
  shows "fst (run_loop n D E st) = Inr ()
    \<and> tasks (snd (run_loop n D E st)) = [ConnectTask]
    \<and> autoReconnect (snd (run_loop n D E st))
    \<and> client (snd (run_loop n D E st)) = None
    \<and> run (snd (run_loop n D E st)) = (0 < n \<or> run st)
    \<and> wire (snd (run_loop n D E st)) = wire st @ replicate (3 * n) Discover"
  using st
proof (induction n arbitrary: st)
  case 0
  then show ?case by simp
next
  case (Suc n)
  define s0 where "s0 = st\<lparr>tasks := []\<rparr>"
  define s1 where "s1 = snd (connect D E s0)"
  have s0: "autoReconnect s0" "client s0 = None" "tasks s0 = []" "wire s0 = wire st"
    using Suc.prems by (simp_all add: s0_def)
  have c: "fst (connect D E s0) = Inr False" "tasks s1 = [ConnectTask]" "run s1" "autoReconnect s1"
    "client s1 = None" "wire s1 = wire st @ replicate 3 Discover"
    using connect_idle [OF E s0(2), of D] s0 by (simp_all add: s1_def)
  have "run_task D E ConnectTask s0 = (Inr (), s1)"
    using c(1) by (cases "connect D E s0") (simp add: run_task_def s1_def)
  then have step: "run_loop (Suc n) D E st = run_loop n D E s1"
    using Suc.prems(1) by (simp add: then_do_def s0_def)
  have "replicate 3 Discover @ replicate (3 * n) Discover = replicate (3 * Suc n) Discover"
    by (simp add: replicate_add [symmetric] del: replicate.simps)
  then show ?case
    unfolding step using Suc.IH [OF c(2) c(4) c(5)] c(3) c(6) by (simp del: replicate.simps)
qed

subsection \<open>The loop over the live registry\<close>

text \<open>
  With hooks that leave the object alone the loop over the live registry is the loop
  over the list (\<open>call_live_hooks_of\<close>); with hooks that leave the registry alone and
  return, it calls the registry front to back (\<open>call_live_steady\<close>).
\<close>

lemma call_live_hooks_of:
  assumes reg: "\<And>s cs. registry (s\<lparr>calls := cs\<rparr>) = registry s"
  shows "i \<le> length (registry st) \<Longrightarrow> length (registry st) - i < fuel \<Longrightarrow>
    call_live fuel (hooks_of E) registry p i st = Some (call_each E (drop i (registry st)) p st)"
proof (induction fuel arbitrary: i st)
  case 0
  then show ?case by simp
next
  case (Suc fuel)
  show ?case
  proof (cases "i < length (registry st)")
    case False
    then show ?thesis using Suc.prems by simp
  next
    case True
    define s1 where "s1 = st\<lparr>calls := calls st @ [Call (registry st ! i) p (cache_of st)]\<rparr>"
    have r1: "registry s1 = registry st"
      by (simp add: s1_def reg)
    have d: "drop i (registry st) = registry st ! i # drop (Suc i) (registry st)"
      using True by (simp add: Cons_nth_drop_Suc)
    have "length (registry s1) - Suc i < fuel" "Suc i \<le> length (registry s1)"
      using Suc.prems True by (simp_all add: r1)
    then have IH: "call_live fuel (hooks_of E) registry p (Suc i) s1
        = Some (call_each E (drop (Suc i) (registry st)) p s1)"
      using Suc.IH [of "Suc i" s1] by (simp add: r1)
    have inv: "invoke_live (hooks_of E) (registry st ! i) p st = invoke E (registry st ! i) p st"
      by (simp add: invoke_live_def hooks_of_def invoke_def)
    show ?thesis
      using True IH
      by (simp add: d inv then_do_def) (simp add: invoke_def s1_def)
  qed
qed








section \<open>The claims\<close>

subsection \<open>The retry bound and automatic reconnection\<close>

text \<open>
  C1. The claim is that with \<^verbatim>\<open>_autoReconnect\<close> set the session stops for good once the
  retry bound is used up and scans no further. The source does otherwise. In an outside
  where no scan finds a Mario or Luigi, nothing raises and the hooks return, the object
  as \<^verbatim>\<open>__init__\<close> leaves it behaves as follows, for every number \<open>n\<close> of tasks run by the
  event loop: no task has raised, exactly one task is pending and it is a \<^verbatim>\<open>connect\<close>
  task, \<^verbatim>\<open>_run\<close> is set as soon as one task has run, and the transport calls made are
  \<open>3 * n\<close> scans. Each \<^verbatim>\<open>connect\<close> task scans three times, logs
  \<^verbatim>\<open>Stopped after 3 attempts, disconnecting...\<close> and awaits \<^verbatim>\<open>disconnect\<close>, which creates the
  next \<^verbatim>\<open>connect\<close> task because \<^verbatim>\<open>_autoReconnect\<close> is set; that task starts with
  \<^verbatim>\<open>retries = 0\<close>. After two tasks six scans have been made.
\<close>

theorem reconnect_never_stops:
  "fst (run_loop n D quiet (Mario_init D dl a t p l dv)) = Inr ()
   \<and> autoReconnect (snd (run_loop n D quiet (Mario_init D dl a t p l dv)))
   \<and> tasks (snd (run_loop n D quiet (Mario_init D dl a t p l dv))) = [ConnectTask]
   \<and> run (snd (run_loop n D quiet (Mario_init D dl a t p l dv))) = (0 < n)
   \<and> wire (snd (run_loop n D quiet (Mario_init D dl a t p l dv))) = replicate (3 * n) Discover
   \<and> length (filter (\<lambda>c. c = Discover) (wire (snd (run_loop 2 D quiet (Mario_init D dl a t p l dv))))) = 6"
proof -
  have q: "raised quiet k = None" "find is_mario (discovered quiet k) = None" "\<not> hook_raises quiet h"
    for k h
    by (simp_all add: quiet_def)
  note f = Mario_init_fields [of D dl a t p l dv]
  have two: "wire (snd (run_loop 2 D quiet (Mario_init D dl a t p l dv))) = replicate (3 * 2) Discover"
    using run_loop_idle [OF q f(1) f(2) f(3), where n = 2 and D = D]
    by (simp add: f)
  show ?thesis
    using run_loop_idle [OF q f(1) f(2) f(3), where n = n and D = D] two
    by (simp add: f)
qed

text \<open>
  With \<^verbatim>\<open>_autoReconnect\<close> cleared on the same object the bound does end the session: the
  first \<^verbatim>\<open>connect\<close> task scans three times, \<^verbatim>\<open>disconnect\<close> clears \<^verbatim>\<open>_run\<close> and creates
  no task, and the event loop has nothing left to run.
\<close>

theorem bound_holds_without_autoReconnect:
  "fst (run_loop (Suc n) D quiet ((Mario_init D dl a t p l dv)\<lparr>autoReconnect := False\<rparr>)) = Inr ()
   \<and> tasks (snd (run_loop (Suc n) D quiet ((Mario_init D dl a t p l dv)\<lparr>autoReconnect := False\<rparr>))) = []
   \<and> \<not> run (snd (run_loop (Suc n) D quiet ((Mario_init D dl a t p l dv)\<lparr>autoReconnect := False\<rparr>)))
   \<and> wire (snd (run_loop (Suc n) D quiet ((Mario_init D dl a t p l dv)\<lparr>autoReconnect := False\<rparr>)))
        = [Discover, Discover, Discover]"
proof -
  have q: "raised quiet k = None" "find is_mario (discovered quiet k) = None" "\<not> hook_raises quiet h"
    for k h
    by (simp_all add: quiet_def)
  note f = Mario_init_fields [of D dl a t p l dv]
  define s0 where "s0 = (Mario_init D dl a t p l dv)\<lparr>autoReconnect := False, tasks := []\<rparr>"
  define s1 where "s1 = snd (connect D quiet s0)"
  have s0: "client s0 = None" "\<not> autoReconnect s0" "tasks s0 = []" "wire s0 = []"
    by (simp_all add: s0_def f)
  have c: "fst (connect D quiet s0) = Inr False" "tasks s1 = []" "\<not> run s1"
    "wire s1 = [Discover, Discover, Discover]"
    using connect_idle [OF q s0(1), of D] s0 by (simp_all add: s1_def numeral_3_eq_3)
  have "run_task D quiet ConnectTask s0 = (Inr (), s1)"
    using c(1) by (cases "connect D quiet s0") (simp add: run_task_def s1_def)
  then have "run_loop (Suc n) D quiet ((Mario_init D dl a t p l dv)\<lparr>autoReconnect := False\<rparr>)
      = run_loop n D quiet s1"
    by (simp add: then_do_def s0_def f)
  also have "\<dots> = (Inr (), s1)"
    using c(2) by (cases n) simp_all
  finally show ?thesis
    using c by simp
qed

subsection \<open>Short frames\<close>

text \<open>
  C2, as amended. The source checks no length: a frame is too short only where the
  path its bytes select reads past its end. Every frame shorter than three bytes
  raises \<open>IndexError\<close> at \<open>frame[2]\<close>; and whenever \<^verbatim>\<open>_handle_events\<close> raises
  \<open>IndexError\<close>, for a frame of any length, it has called no hook and has left the
  object unchanged. (A frame of three to five bytes whose path reads only bytes it has
  is decoded and dispatched: see the theorem after the witness.)
\<close>

theorem short_frame_raises_before_any_hook:
  "(length data < 3 \<longrightarrow> handle_events D E data st = (Inl IndexError, st))
   \<and> (fst (handle_events D E data st) = Inl IndexError \<longrightarrow>
        snd (handle_events D E data st) = st \<and> new_calls st (snd (handle_events D E data st)) = [])"
proof -
  have "index_error_first (handle_events D E data)"
    by (rule index_error_first_handle_events)
  then have "fst (handle_events D E data st) = Inl IndexError \<longrightarrow> snd (handle_events D E data st) = st"
    by (simp add: index_error_first_def)
  then show ?thesis
    by (auto simp add: handle_events_short new_calls_def)
qed

theorem short_frame_raises_before_any_hook_witness:
  "length [0x05, 0x00 :: byte] < 3
   \<and> handle_events demo_data quiet [0x05, 0x00] demo_mario = (Inl IndexError, demo_mario)
   \<and> fst (handle_events demo_data quiet [0x04, 0x00, 0x45, 0x01] demo_mario) = Inl IndexError
   \<and> snd (handle_events demo_data quiet [0x04, 0x00, 0x45, 0x01] demo_mario) = demo_mario
   \<and> new_calls demo_mario (snd (handle_events demo_data quiet [0x04, 0x00, 0x45, 0x01] demo_mario)) = []"
proof -
  have f: "fst (handle_events demo_data quiet [0x04, 0x00, 0x45, 0x01] demo_mario) = Inl IndexError"
    by (simp add: handle_events_def item_def Let_def)
  show ?thesis
    using short_frame_raises_before_any_hook [of "[0x05, 0x00]" demo_data quiet demo_mario]
      short_frame_raises_before_any_hook [of "[0x04, 0x00, 0x45, 0x01]" demo_data quiet demo_mario] f
    by (simp add: new_calls_def)
qed

theorem pants_frame_of_five_bytes_is_dispatched:
  "length [0x05, 0x00, 0x45, 0x02, 0x21 :: byte] < 6
   \<and> fst (handle_events demo_data quiet [0x05, 0x00, 0x45, 0x02, 0x21] demo_mario) = Inr ()
   \<and> map hook (new_calls demo_mario (snd (handle_events demo_data quiet [0x05, 0x00, 0x45, 0x02, 0x21] demo_mario)))
        = [4]
   \<and> map args (new_calls demo_mario (snd (handle_events demo_data quiet [0x05, 0x00, 0x45, 0x02, 0x21] demo_mario)))
        = [PantsArgs ''Mario'']"
proof -
  have q: "\<not> hook_raises quiet k" for k
    by (simp add: quiet_def)
  have h: "handle_events demo_data quiet [0x05, 0x00, 0x45, 0x02, 0x21] demo_mario =
      then_do (log quiet (''Mario Pants, Pants-Only Binary: '' @ py_bin (unat (0x21 :: byte)) @ '',Hex: ''
                          @ bytes_hex [0x05, 0x00, 0x45, 0x02, 0x21]) newline)
        (callPantsHooks quiet ''Mario'') demo_mario"
    by (subst handle_events_pants) (simp_all add: demo_data_def dict_get_def)
  have l: "\<forall>k\<in>set (logEventHooks demo_mario). \<not> hook_raises quiet k"
    by (simp add: demo_mario_fields)
  show ?thesis
    unfolding h then_do_log_ok [OF l]
    by (simp add: demo_mario_fields callPantsHooks_eq new_calls_def q)
qed

subsection \<open>Tile notifications\<close>




subsection \<open>The signed byte on the accelerometer path\<close>

text \<open>
  C4. \<^verbatim>\<open>signed\<close> maps \<open>n\<close> to \<open>n - 256\<close> when \<open>n > 127\<close> and to \<open>n\<close> otherwise; on a
  raw byte that is its two's-complement value, between \<open>-128\<close> and \<open>127\<close>; it maps
  \<open>0x00\<close> to \<open>0\<close>, \<open>0x7F\<close> to \<open>127\<close>, \<open>0x80\<close> to \<open>-128\<close> and \<open>0xFF\<close> to \<open>-1\<close>. On
  the raw accelerometer path of \<^verbatim>\<open>_handle_events\<close> the cached acceleration and the
  arguments of the accelerometer hooks are \<^verbatim>\<open>signed\<close> of the bytes 4, 5 and 6 of the
  frame.
\<close>

theorem signed_byte_decoding:
  "signed_py n = (if n > 127 then n - 256 else n)
   \<and> signed_py (uint (b :: byte)) = sint b
   \<and> - 128 \<le> signed_py (uint b) \<and> signed_py (uint b) \<le> 127
   \<and> signed_py 0x00 = 0 \<and> signed_py 0x7F = 127 \<and> signed_py 0x80 = - 128 \<and> signed_py 0xFF = - 1
   \<and> (6 < length data \<and> data ! 2 = 0x45 \<and> data ! 3 = 0x00 \<and> take 2 (drop 4 data) \<noteq> drop 6 data
        \<and> (\<forall>h\<in>set (logEventHooks st). \<not> hook_raises E h) \<longrightarrow>
        acceleration (snd (handle_events D E data st))
          = Some (signed_py (uint (data ! 4)), signed_py (uint (data ! 5)), signed_py (uint (data ! 6)))
        \<and> map args (event_calls st (snd (handle_events D E data st)))
          = map (\<lambda>h. AccelerometerArgs (signed_py (uint (data ! 4))) (signed_py (uint (data ! 5)))
                         (signed_py (uint (data ! 6))))
              (reached E (accelerometerEventHooks st)))"
proof -
  have path: "acceleration (snd (handle_events D E data st))
          = Some (signed_py (uint (data ! 4)), signed_py (uint (data ! 5)), signed_py (uint (data ! 6)))
        \<and> map args (event_calls st (snd (handle_events D E data st)))
          = map (\<lambda>h. AccelerometerArgs (signed_py (uint (data ! 4))) (signed_py (uint (data ! 5)))
                         (signed_py (uint (data ! 6))))
              (reached E (accelerometerEventHooks st))"
    if f: "6 < length data" "data ! 2 = 0x45" "data ! 3 = 0x00" "take 2 (drop 4 data) \<noteq> drop 6 data"
      and ok: "\<forall>h\<in>set (logEventHooks st). \<not> hook_raises E h"
    unfolding handle_events_raw [OF f] then_do_log_ok [OF ok]
    by (simp add: callAccelerometerHooks_eq event_calls_def new_calls_def event_calls_log_then
        filter_acc_calls comp_def)
  have vals: "signed_py 0x00 = 0 \<and> signed_py 0x7F = 127 \<and> signed_py 0x80 = - 128 \<and> signed_py 0xFF = - 1"
    by (simp add: signed_py_def)
  have eq: "signed_py n = (if n > 127 then n - 256 else n)"
    by (simp add: signed_py_def)
  from eq signed_py_sint [of b] signed_py_range [of b] vals path show ?thesis
    by blast
qed

theorem signed_byte_decoding_witness:
  "6 < length imu_frame \<and> imu_frame ! 2 = 0x45 \<and> imu_frame ! 3 = 0x00
   \<and> take 2 (drop 4 imu_frame) \<noteq> drop 6 imu_frame
   \<and> logEventHooks demo_mario = []
   \<and> acceleration (snd (handle_events demo_data quiet imu_frame demo_mario)) = Some (- 128, 127, - 1)
   \<and> map args (event_calls demo_mario (snd (handle_events demo_data quiet imu_frame demo_mario)))
        = [AccelerometerArgs (- 128) 127 (- 1)]"
  using signed_byte_decoding [where data = imu_frame and st = demo_mario and E = quiet and D = demo_data]
  by (simp add: demo_mario_fields imu_frame_def quiet_def signed_py_def)

subsection \<open>The volume is clamped\<close>

text \<open>
  C5. \<^verbatim>\<open>set_volume\<close> replaces its argument by \<open>min (max v 0) 100\<close> before it builds the
  command: it behaves on \<open>v\<close> as on the clamped value, on \<open>-5\<close> as on \<open>0\<close> and on
  \<open>150\<close> as on \<open>100\<close>; it raises for no \<open>v\<close>; the byte it appends to the first five
  bytes of \<^verbatim>\<open>MUTE_COMMAND\<close> is the clamped value itself, between 0 and 100.
\<close>

theorem set_volume_clamps:
  "set_volume D E v st = set_volume D E (min (max v 0) 100) st
   \<and> set_volume D E (- 5) st = set_volume D E 0 st
   \<and> set_volume D E 150 st = set_volume D E 100 st
   \<and> fst (set_volume D E v st) = Inr ()
   \<and> snd (set_volume D E v st) =
       (case client st of
          None \<Rightarrow> st
        | Some c \<Rightarrow> st\<lparr>tasks := tasks st @ [WriteTask (LEGO_CHARACTERISTIC_UUID D)
                         (take 5 (MUTE_COMMAND D) @ [word_of_int (min (max v 0) 100)])]\<rparr>)
   \<and> uint (word_of_int (min (max v 0) 100) :: byte) = min (max v 0) 100
   \<and> 0 \<le> min (max v 0) 100 \<and> min (max v 0) 100 \<le> 100"
proof -
  have 1: "set_volume D E v st = set_volume D E (min (max v 0) 100) st"
    by (simp add: set_volume_def)
  have 2: "set_volume D E (- 5) st = set_volume D E 0 st"
    by (simp add: set_volume_def)
  have 3: "set_volume D E 150 st = set_volume D E 100 st"
    by (simp add: set_volume_def)
  have 4: "fst (set_volume D E v st) = Inr ()"
    by (simp add: set_volume_def try_except_def Let_def split: option.split)
  have 5: "snd (set_volume D E v st) =
       (case client st of
          None \<Rightarrow> st
        | Some c \<Rightarrow> st\<lparr>tasks := tasks st @ [WriteTask (LEGO_CHARACTERISTIC_UUID D)
                         (take 5 (MUTE_COMMAND D) @ [word_of_int (min (max v 0) 100)])]\<rparr>)"
    by (simp add: set_volume_def try_except_def Let_def split: option.split)
  have r: "0 \<le> min (max v 0) 100" "min (max v 0) 100 \<le> 100"
    by simp_all
  have "uint (word_of_int (min (max v 0) 100) :: byte) = take_bit 8 (min (max v 0) 100)"
    by (simp add: uint_word_of_int_eq)
  also have "\<dots> = min (max v 0) 100"
    using r by (simp add: take_bit_int_eq_self)
  finally have 6: "uint (word_of_int (min (max v 0) 100) :: byte) = min (max v 0) 100" .
  from 1 2 3 4 5 6 r show ?thesis by blast
qed

theorem set_volume_clamps_witness:
  "set_volume demo_data quiet (- 5) connected_mario = set_volume demo_data quiet 0 connected_mario
   \<and> set_volume demo_data quiet 150 connected_mario = set_volume demo_data quiet 100 connected_mario
   \<and> tasks (snd (set_volume demo_data quiet 150 connected_mario))
        = [ConnectTask, WriteTask ''uuid'' [0x06, 0x00, 0x01, 0x12, 0x01, 100]]
   \<and> tasks (snd (set_volume demo_data quiet (- 5) connected_mario))
        = [ConnectTask, WriteTask ''uuid'' [0x06, 0x00, 0x01, 0x12, 0x01, 0]]"
  using set_volume_clamps [where v = 150 and st = connected_mario and D = demo_data and E = quiet]
    set_volume_clamps [where v = "- 5" and st = connected_mario and D = demo_data and E = quiet]
  by (simp add: connected_mario_def demo_mario_def Mario_init_def demo_data_def set_volume_def
      try_except_def Let_def)

subsection \<open>The port of \<^verbatim>\<open>request_port_value\<close>\<close>

text \<open>
  C6. For a port outside \<open>{0, 1, 2, 3, 4, 6}\<close> \<^verbatim>\<open>request_port_value\<close> raises
  \<open>AssertionError\<close> and leaves the object as it was, with no transport call made. For
  port 2 and a connected client (and a \<^verbatim>\<open>REQUEST_RGB_COMMAND\<close> of at least four bytes) the
  next transport call is the write of the command with byte 3 set to 2, and when the
  transport takes that write the method returns normally, having done nothing else.
\<close>

theorem request_port_value_checks_port:
  "(port \<notin> {0, 1, 2, 3, 4, 6} \<longrightarrow> request_port_value D E port st = (Inl AssertionError, st))
   \<and> (client st \<noteq> None \<and> 3 < length (request_rgb_command st) \<longrightarrow>
        (\<exists>ws. wire (snd (request_port_value D E 2 st))
                = wire st @ WriteGattChar (LEGO_CHARACTERISTIC_UUID D) ((request_rgb_command st)[3 := 2]) # ws)
        \<and> (raised E (length (wire st)) = None \<longrightarrow>
             request_port_value D E 2 st =
               (Inr (), st\<lparr>request_rgb_command := (request_rgb_command st)[3 := 2],
                           wire := wire st @ [WriteGattChar (LEGO_CHARACTERISTIC_UUID D)
                                                ((request_rgb_command st)[3 := 2])]\<rparr>)))"
proof -
  have bad: "request_port_value D E port st = (Inl AssertionError, st)" if "port \<notin> {0, 1, 2, 3, 4, 6}"
    using that by (simp add: request_port_value_def)
  have good: "(\<exists>ws. wire (snd (request_port_value D E 2 st))
                = wire st @ WriteGattChar (LEGO_CHARACTERISTIC_UUID D) ((request_rgb_command st)[3 := 2]) # ws)
        \<and> (raised E (length (wire st)) = None \<longrightarrow>
             request_port_value D E 2 st =
               (Inr (), st\<lparr>request_rgb_command := (request_rgb_command st)[3 := 2],
                           wire := wire st @ [WriteGattChar (LEGO_CHARACTERISTIC_UUID D)
                                                ((request_rgb_command st)[3 := 2])]\<rparr>))"
    if c: "client st \<noteq> None" and len: "3 < length (request_rgb_command st)"
  proof -
    define w where "w = WriteGattChar (LEGO_CHARACTERISTIC_UUID D) ((request_rgb_command st)[3 := 2])"
    define s1 where "s1 = st\<lparr>request_rgb_command := (request_rgb_command st)[3 := 2], wire := wire st @ [w]\<rparr>"
    define handler where "handler = then_do (log E ''Connection error while requesting port value'' newline)
               (disconnect D E :: 'a mario \<Rightarrow> (error + unit) \<times> 'a mario)"
    have body: "transport E w (st\<lparr>request_rgb_command := (request_rgb_command st)[3 := 2]\<rparr>)
        = (case raised E (length (wire st)) of None \<Rightarrow> Inr () | Some e \<Rightarrow> Inl e, s1)"
      by (simp add: transport_def s1_def)
    have rpv: "request_port_value D E 2 st =
        (case raised E (length (wire st)) of
           None \<Rightarrow> (Inr (), s1)
         | Some e \<Rightarrow> if e \<in> {OSError, BleakError} then handler s1 else (Inl e, s1))"
      using c len body
      by (auto simp add: request_port_value_def try_except_def Let_def w_def handler_def
          split: option.split)
    have "wire_grows handler"
      unfolding handler_def by (rule wg_then) (rule wg_log, rule wg_disconnect)
    then obtain vs where vs: "wire (snd (handler s1)) = wire s1 @ vs"
      unfolding wire_grows_def by blast
    have "\<exists>ws. wire (snd (request_port_value D E 2 st)) = wire st @ w # ws"
      using vs by (auto simp add: rpv s1_def split: option.split)
    moreover have "raised E (length (wire st)) = None \<longrightarrow> request_port_value D E 2 st = (Inr (), s1)"
      by (simp add: rpv)
    ultimately show ?thesis
      by (simp add: w_def s1_def)
  qed
  from bad good show ?thesis by blast
qed

theorem request_port_value_checks_port_witness:
  "(5 :: int) \<notin> {0, 1, 2, 3, 4, 6}
   \<and> request_port_value demo_data quiet 5 connected_mario = (Inl AssertionError, connected_mario)
   \<and> client connected_mario \<noteq> None \<and> 3 < length (request_rgb_command connected_mario)
   \<and> raised quiet (length (wire connected_mario)) = None
   \<and> fst (request_port_value demo_data quiet 2 connected_mario) = Inr ()
   \<and> wire (snd (request_port_value demo_data quiet 2 connected_mario))
        = [WriteGattChar ''uuid'' [0x05, 0x00, 0x21, 0x02, 0x00]]"
  using request_port_value_checks_port [where port = 5 and st = connected_mario and D = demo_data
      and E = quiet]
  by (simp add: connected_mario_def demo_mario_def Mario_init_def demo_data_def quiet_def)

subsection \<open>Hooks are called in the order they were registered\<close>




subsection \<open>The cache is written before the hooks are called\<close>

text \<open>
  C8. Each of \<^verbatim>\<open>_callTileHooks\<close>, \<^verbatim>\<open>_callAccelerometerHooks\<close> and \<^verbatim>\<open>_callPantsHooks\<close>
  writes the cached field of its category (\<^verbatim>\<open>ground\<close> for a tile or a ground colour,
  \<^verbatim>\<open>acceleration\<close>, \<^verbatim>\<open>pants\<close>) before it calls the first hook: the field holds the new
  value afterwards, and every hook called saw it already there. Over a whole
  notification, every call of a tile, accelerometer or pants hook that
  \<^verbatim>\<open>_handle_events\<close> makes is of that kind (\<open>fresh\<close>), whatever the frame.
\<close>

theorem cache_updated_before_hooks:
  "ground (snd (callTileHooks E tile st)) = Some tile
   \<and> list_all (\<lambda>c. c_ground (saw c) = Some tile) (new_calls st (snd (callTileHooks E tile st)))
   \<and> acceleration (snd (callAccelerometerHooks E x y z st)) = Some (x, y, z)
   \<and> list_all (\<lambda>c. c_acceleration (saw c) = Some (x, y, z))
        (new_calls st (snd (callAccelerometerHooks E x y z st)))
   \<and> pants (snd (callPantsHooks E powerup st)) = Some powerup
   \<and> list_all (\<lambda>c. c_pants (saw c) = Some powerup) (new_calls st (snd (callPantsHooks E powerup st)))
   \<and> list_all fresh (new_calls st (snd (handle_events D E data st)))"
proof -
  have "ground (snd (callTileHooks E tile st)) = Some tile"
    by (simp add: callTileHooks_eq)
  moreover have "list_all (\<lambda>c. c_ground (saw c) = Some tile) (new_calls st (snd (callTileHooks E tile st)))"
    by (simp add: new_calls_tile list_all_iff cache_of_def)
  moreover have "acceleration (snd (callAccelerometerHooks E x y z st)) = Some (x, y, z)"
    by (simp add: callAccelerometerHooks_eq)
  moreover have "list_all (\<lambda>c. c_acceleration (saw c) = Some (x, y, z))
        (new_calls st (snd (callAccelerometerHooks E x y z st)))"
    by (simp add: new_calls_acc list_all_iff cache_of_def)
  moreover have "pants (snd (callPantsHooks E powerup st)) = Some powerup"
    by (simp add: callPantsHooks_eq)
  moreover have "list_all (\<lambda>c. c_pants (saw c) = Some powerup) (new_calls st (snd (callPantsHooks E powerup st)))"
    by (simp add: new_calls_pants list_all_iff cache_of_def)
  moreover have "list_all fresh (new_calls st (snd (handle_events D E data st)))"
    by (rule new_calls_fresh) (rule calls_fresh_handle_events)
  ultimately show ?thesis by blast
qed

theorem cache_updated_before_hooks_witness:
  "map hook (new_calls demo_mario (snd (handle_events demo_data quiet tile_frame demo_mario))) = [1, 2, 1]
   \<and> map (c_ground \<circ> saw) (new_calls demo_mario (snd (handle_events demo_data quiet tile_frame demo_mario)))
        = [Some ''Start'', Some ''Start'', Some ''Start'']
   \<and> list_all fresh (new_calls demo_mario (snd (handle_events demo_data quiet tile_frame demo_mario)))"
proof -
  have h: "handle_events demo_data quiet tile_frame demo_mario =
      then_do (log quiet (''Start Tile, Hex: '' @ bytes_hex tile_frame) newline)
        (callTileHooks quiet ''Start'') (demo_mario\<lparr>recentTile := Some ''Start''\<rparr>)"
    by (subst handle_events_tile) (simp_all add: tile_frame_def demo_data_def dict_get_def)
  have q: "\<not> hook_raises quiet k" for k
    by (simp add: quiet_def)
  have "new_calls demo_mario (snd (handle_events demo_data quiet tile_frame demo_mario)) =
      map (\<lambda>h. Call h (TileArgs ''Start'')
                 \<lparr>c_pants = None, c_ground = Some ''Start'', c_acceleration = None,
                  c_recentTile = Some ''Start''\<rparr>) [1, 2, 1]"
    unfolding h
    by (subst then_do_log_ok) (simp_all add: demo_mario_fields callTileHooks_eq new_calls_def q cache_of_def)
  then show ?thesis
    using cache_updated_before_hooks [of quiet "''Start''" demo_mario 0 0 0 "''Mario''" demo_data tile_frame]
    by simp
qed

subsection \<open>Registering what is neither callable nor iterable\<close>

text \<open>
  C9. An argument that is neither callable nor iterable, such as the \<^verbatim>\<open>None\<close> that is
  the constructor's default for every hook parameter, makes each of \<^verbatim>\<open>AddTileHook\<close>,
  \<^verbatim>\<open>AddAccelerometerHook\<close>, \<^verbatim>\<open>AddPantsHook\<close> and \<^verbatim>\<open>AddLogHook\<close> return without an
  error and without a change to the object, so that every registry is as it was; an
  object constructed with the defaults has four empty registries.
\<close>

theorem register_none_is_noop:
  "AddTileHook Other st = st \<and> AddAccelerometerHook Other st = st
   \<and> AddPantsHook Other st = st \<and> AddLogHook Other st = st
   \<and> accelerometerEventHooks (Mario_init D dl Other Other Other Other dv) = []
   \<and> tileEventHooks (Mario_init D dl Other Other Other Other dv) = []
   \<and> pantsEventHooks (Mario_init D dl Other Other Other Other dv) = []
   \<and> logEventHooks (Mario_init D dl Other Other Other Other dv) = ([] :: 'h list)"
  by (simp add: Mario_init_def)

subsection \<open>Removing a hook that is registered more than once\<close>



end
